theory Spec2Isabelle
  imports Main "HOL-Library.Sublist"
begin

section \<open>Characters and strings\<close>

text \<open>
  Strings are lists of characters with code points below 256.  On these code points the
  classes used by \<^verbatim>\<open>scrapper.py\<close> are: \<^verbatim>\<open>\d\<close> is \<^verbatim>\<open>0\<close>..\<^verbatim>\<open>9\<close>;
  \<^verbatim>\<open>\s\<close> and \<^verbatim>\<open>str.strip()\<close> use the code points 9..13, 28..32, 133 and 160;
  \<^verbatim>\<open>re.IGNORECASE\<close> against an ASCII pattern letter folds only the ASCII letter.
\<close>

definition is_digit :: "char \<Rightarrow> bool" where
  "is_digit c \<longleftrightarrow> c \<in> set ''0123456789''"

definition is_space :: "char \<Rightarrow> bool" where
  "is_space c \<longleftrightarrow> c \<in> set [CHR 0x09, CHR 0x0A, CHR 0x0B, CHR 0x0C, CHR 0x0D, CHR 0x1C,
       CHR 0x1D, CHR 0x1E, CHR 0x1F, CHR 0x20, CHR 0x85, CHR 0xA0]"

definition lower :: "char \<Rightarrow> char" where
  "lower c = (case map_of (zip ''ABCDEFGHIJKLMNOPQRSTUVWXYZ'' ''abcdefghijklmnopqrstuvwxyz'') c of
                None \<Rightarrow> c | Some d \<Rightarrow> d)"

text \<open>\<^verbatim>\<open>s.strip()\<close>\<close>

definition strip :: "string \<Rightarrow> string" where
  "strip s = rev (dropWhile is_space (rev (dropWhile is_space s)))"

text \<open>
  \<^verbatim>\<open>re.search\<close> succeeds when the pattern matches at some position: \<open>search p s\<close> tries
  \<open>p\<close> on every suffix of \<open>s\<close>, leftmost first.  \<open>search_first\<close> returns what the leftmost
  successful position yields.
\<close>

primrec search :: "(string \<Rightarrow> bool) \<Rightarrow> string \<Rightarrow> bool" where
  "search p [] = p []"
| "search p (c # cs) = (p (c # cs) \<or> search p cs)"

primrec search_first :: "(string \<Rightarrow> 'a option) \<Rightarrow> string \<Rightarrow> 'a option" where
  "search_first m [] = m []"
| "search_first m (c # cs) = (case m (c # cs) of Some r \<Rightarrow> Some r | None \<Rightarrow> search_first m cs)"

text \<open>A literal pattern, and a literal pattern under \<^verbatim>\<open>re.IGNORECASE\<close> (the literal is lower case).\<close>

definition lit :: "string \<Rightarrow> string \<Rightarrow> bool" where
  "lit l s \<longleftrightarrow> prefix l s"

definition lit_i :: "string \<Rightarrow> string \<Rightarrow> bool" where
  "lit_i l s \<longleftrightarrow> prefix l (map lower s)"

text \<open>\<^verbatim>\<open>sub in s\<close>, and the attribute selector \<^verbatim>\<open>[attr*="sub"]\<close>\<close>

definition contains :: "string \<Rightarrow> string \<Rightarrow> bool" where
  "contains sub s \<longleftrightarrow> search (lit sub) s"

text \<open>\<^verbatim>\<open>re.search(r'(\d+)', s)\<close>: the first maximal run of digits.\<close>

definition first_digits :: "string \<Rightarrow> string option" where
  "first_digits s =
     (let r = dropWhile (\<lambda>c. \<not> is_digit c) s
      in if r = [] then None else Some (takeWhile is_digit r))"

section \<open>The parts of \<^verbatim>\<open>urllib.parse\<close> that \<^verbatim>\<open>extract_product_data\<close> calls\<close>

text \<open>
  \<^verbatim>\<open>urljoin\<close> and \<^verbatim>\<open>urlparse\<close> are transcribed from CPython 3.11
  (\<^verbatim>\<open>Lib/urllib/parse.py\<close>), on \<^verbatim>\<open>str\<close> arguments with \<^verbatim>\<open>allow_fragments=True\<close>.
  \<^verbatim>\<open>urlsplit\<close> raises \<^verbatim>\<open>ValueError\<close> on a host with unbalanced brackets and on a
  bracketed host that \<^verbatim>\<open>_check_bracketed_host\<close> rejects; the latter test (the
  \<^verbatim>\<open>ipaddress\<close> module) is the parameter \<open>bh\<close>, true on the hosts it accepts.
  \<^verbatim>\<open>_checknetloc\<close> never raises on code points below 256 (their NFKC forms contain
  none of \<^verbatim>\<open>/?#@:\<close>), so it has no branch here.
\<close>

datatype error = ValueError

definition uses_relative :: "string list" where
  "uses_relative = ['''', ''ftp'', ''http'', ''gopher'', ''nntp'', ''imap'',
     ''wais'', ''file'', ''https'', ''shttp'', ''mms'',
     ''prospero'', ''rtsp'', ''rtsps'', ''rtspu'', ''sftp'',
     ''svn'', ''svn+ssh'', ''ws'', ''wss'']"

definition uses_netloc :: "string list" where
  "uses_netloc = ['''', ''ftp'', ''http'', ''gopher'', ''nntp'', ''telnet'',
     ''imap'', ''wais'', ''file'', ''mms'', ''https'', ''shttp'',
     ''snews'', ''prospero'', ''rtsp'', ''rtsps'', ''rtspu'', ''rsync'',
     ''svn'', ''svn+ssh'', ''sftp'', ''nfs'', ''git'', ''git+ssh'',
     ''ws'', ''wss'']"

definition uses_params :: "string list" where
  "uses_params = ['''', ''ftp'', ''hdl'', ''prospero'', ''http'', ''imap'',
     ''https'', ''shttp'', ''rtsp'', ''rtsps'', ''rtspu'', ''sip'',
     ''sips'', ''mms'', ''sftp'', ''tel'']"

definition scheme_char :: "char \<Rightarrow> bool" where
  "scheme_char c \<longleftrightarrow> c \<in> set (''abcdefghijklmnopqrstuvwxyz'' @ ''ABCDEFGHIJKLMNOPQRSTUVWXYZ''
       @ ''0123456789'' @ ''+-.'')"

definition ascii_alpha :: "char \<Rightarrow> bool" where
  "ascii_alpha c \<longleftrightarrow> c \<in> set (''abcdefghijklmnopqrstuvwxyz'' @ ''ABCDEFGHIJKLMNOPQRSTUVWXYZ'')"

definition c0_control_or_space :: "char \<Rightarrow> bool" where
  "c0_control_or_space c \<longleftrightarrow> (of_char c :: nat) \<le> 32"

definition unsafe_url_byte :: "char \<Rightarrow> bool" where
  "unsafe_url_byte c \<longleftrightarrow> c \<in> set [CHR 0x09, CHR 0x0D, CHR 0x0A]"

record ParseResult =
  scheme :: string
  netloc :: string
  path :: string
  params :: string
  query :: string
  fragment :: string

text \<open>\<^verbatim>\<open>s.split(c, 1)\<close> read as a pair; the second part is empty when \<open>c\<close> does not occur.\<close>

definition split1 :: "char \<Rightarrow> string \<Rightarrow> string \<times> string" where
  "split1 c s = (takeWhile (\<lambda>x. x \<noteq> c) s, drop 1 (dropWhile (\<lambda>x. x \<noteq> c) s))"

text \<open>The scheme test of \<^verbatim>\<open>urlsplit\<close>: \<^verbatim>\<open>i = url.find(':')\<close>, \<^verbatim>\<open>i > 0\<close>, a letter first,
  scheme characters only.\<close>

definition split_scheme :: "string \<Rightarrow> string \<Rightarrow> string \<times> string" where
  "split_scheme dflt url =
     (let pre = takeWhile (\<lambda>c. c \<noteq> CHR '':'') url
      in if CHR '':'' \<in> set url \<and> pre \<noteq> [] \<and> ascii_alpha (hd pre) \<and> list_all scheme_char pre
         then (map lower pre, drop (Suc (length pre)) url)
         else (dflt, url))"

definition is_delim :: "char \<Rightarrow> bool" where
  "is_delim c \<longleftrightarrow> c \<in> set ''/?#''"

text \<open>\<^verbatim>\<open>netloc.partition('[')[2].partition(']')[0]\<close>\<close>

definition bracketed_host :: "string \<Rightarrow> string" where
  "bracketed_host nl =
     takeWhile (\<lambda>c. c \<noteq> CHR '']'') (drop 1 (dropWhile (\<lambda>c. c \<noteq> CHR ''['') nl))"

definition netloc_ok :: "(string \<Rightarrow> bool) \<Rightarrow> string \<Rightarrow> bool" where
  "netloc_ok bh nl \<longleftrightarrow>
     \<not> ((CHR ''['' \<in> set nl \<and> CHR '']'' \<notin> set nl) \<or> (CHR '']'' \<in> set nl \<and> CHR ''['' \<notin> set nl))
     \<and> (CHR ''['' \<in> set nl \<and> CHR '']'' \<in> set nl \<longrightarrow> bh (bracketed_host nl))"

definition urlsplit :: "(string \<Rightarrow> bool) \<Rightarrow> string \<Rightarrow> string \<Rightarrow> error + ParseResult" where
  "urlsplit bh url0 scheme0 =
     (let url1 = filter (\<lambda>c. \<not> unsafe_url_byte c) (dropWhile c0_control_or_space url0);
          dflt = filter (\<lambda>c. \<not> unsafe_url_byte c)
                   (rev (dropWhile c0_control_or_space (rev (dropWhile c0_control_or_space scheme0))));
          (sch, url2) = split_scheme dflt url1;
          nl = (if take 2 url2 = ''//'' then takeWhile (\<lambda>c. \<not> is_delim c) (drop 2 url2) else []);
          url3 = (if take 2 url2 = ''//'' then dropWhile (\<lambda>c. \<not> is_delim c) (drop 2 url2) else url2);
          (url4, frag) = split1 (CHR ''#'') url3;
          (url5, qry) = split1 (CHR ''?'') url4
      in if take 2 url2 = ''//'' \<and> \<not> netloc_ok bh nl then Inl ValueError
         else Inr \<lparr>scheme = sch, netloc = nl, path = url5, params = [], query = qry,
                   fragment = frag\<rparr>)"

text \<open>\<^verbatim>\<open>_splitparams\<close>: the first \<^verbatim>\<open>;\<close> after the last \<^verbatim>\<open>/\<close> splits the path.\<close>

definition last_segment :: "string \<Rightarrow> string" where
  "last_segment u = rev (takeWhile (\<lambda>c. c \<noteq> CHR ''/'') (rev u))"

definition splitparams :: "string \<Rightarrow> string \<times> string" where
  "splitparams u =
     (let seg = last_segment u; dir = take (length u - length seg) u
      in (dir @ takeWhile (\<lambda>c. c \<noteq> CHR '';'') seg,
          drop 1 (dropWhile (\<lambda>c. c \<noteq> CHR '';'') seg)))"

definition urlparse :: "(string \<Rightarrow> bool) \<Rightarrow> string \<Rightarrow> string \<Rightarrow> error + ParseResult" where
  "urlparse bh url scheme0 =
     (case urlsplit bh url scheme0 of
        Inl e \<Rightarrow> Inl e
      | Inr r \<Rightarrow>
          if scheme r \<in> set uses_params \<and> CHR '';'' \<in> set (path r)
          then Inr (r\<lparr>path := fst (splitparams (path r)), params := snd (splitparams (path r))\<rparr>)
          else Inr r)"

definition urlunsplit :: "ParseResult \<Rightarrow> string" where
  "urlunsplit r =
     (let url1 = (if netloc r \<noteq> [] \<or> (scheme r \<noteq> [] \<and> scheme r \<in> set uses_netloc)
                     \<or> take 2 (path r) = ''//''
                  then ''//'' @ netloc r
                       @ (if path r \<noteq> [] \<and> take 1 (path r) \<noteq> ''/'' then ''/'' @ path r else path r)
                  else path r);
          url2 = (if scheme r \<noteq> [] then scheme r @ '':'' @ url1 else url1);
          url3 = (if query r \<noteq> [] then url2 @ ''?'' @ query r else url2)
      in if fragment r \<noteq> [] then url3 @ ''#'' @ fragment r else url3)"

definition urlunparse :: "ParseResult \<Rightarrow> string" where
  "urlunparse r =
     urlunsplit (if params r \<noteq> [] then r\<lparr>path := path r @ '';'' @ params r\<rparr> else r)"

text \<open>\<^verbatim>\<open>s.split('/')\<close> and \<^verbatim>\<open>'/'.join(xs)\<close>\<close>

fun split_slash :: "string \<Rightarrow> string list" where
  "split_slash [] = [[]]"
| "split_slash (c # cs) =
     (if c = CHR ''/'' then [] # split_slash cs
      else (case split_slash cs of [] \<Rightarrow> [[c]] | s # ss \<Rightarrow> (c # s) # ss))"

fun join_slash :: "string list \<Rightarrow> string" where
  "join_slash [] = []"
| "join_slash [s] = s"
| "join_slash (s # t # ss) = s @ ''/'' @ join_slash (t # ss)"

text \<open>\<^verbatim>\<open>segments[1:-1] = filter(None, segments[1:-1])\<close>\<close>

definition drop_empty_middle :: "string list \<Rightarrow> string list" where
  "drop_empty_middle segs =
     (if length segs < 2 then segs
      else hd segs # filter (\<lambda>s. s \<noteq> []) (butlast (tl segs)) @ [last segs])"

text \<open>The loop over \<^verbatim>\<open>segments\<close>; \<^verbatim>\<open>pop()\<close> on the empty list is caught and ignored.\<close>

fun resolve_path :: "string list \<Rightarrow> string list \<Rightarrow> string list" where
  "resolve_path [] resolved = resolved"
| "resolve_path (seg # segs) resolved =
     (if seg = ''..'' then resolve_path segs (butlast resolved)
      else if seg = ''.'' then resolve_path segs resolved
      else resolve_path segs (resolved @ [seg]))"

definition urljoin :: "(string \<Rightarrow> bool) \<Rightarrow> string \<Rightarrow> string \<Rightarrow> error + string" where
  "urljoin bh base url =
     (if base = [] then Inr url
      else if url = [] then Inr base
      else case urlparse bh base [] of
        Inl e \<Rightarrow> Inl e
      | Inr b \<Rightarrow>
         (case urlparse bh url (scheme b) of
            Inl e \<Rightarrow> Inl e
          | Inr u \<Rightarrow>
             if scheme u \<noteq> scheme b \<or> scheme u \<notin> set uses_relative then Inr url
             else if scheme u \<in> set uses_netloc \<and> netloc u \<noteq> [] then Inr (urlunparse u)
             else
               let nl = (if scheme u \<in> set uses_netloc then netloc b else netloc u)
               in if path u = [] \<and> params u = []
                  then Inr (urlunparse (u\<lparr>netloc := nl, path := path b, params := params b,
                              query := (if query u = [] then query b else query u)\<rparr>))
                  else
                    let parts = split_slash (path b);
                        base_parts = (if last parts \<noteq> [] then butlast parts else parts);
                        segments = (if take 1 (path u) = ''/'' then split_slash (path u)
                                    else drop_empty_middle (base_parts @ split_slash (path u)));
                        resolved = resolve_path segments [];
                        resolved_path = (if last segments \<in> {''.'', ''..''}
                                         then resolved @ [[]] else resolved);
                        joined = join_slash resolved_path
                    in Inr (urlunparse (u\<lparr>netloc := nl,
                              path := (if joined = [] then ''/'' else joined)\<rparr>))))"

text \<open>
  Lines 86 to 88 of \<^verbatim>\<open>extract_product_data\<close>: the identity of a card,
  \<^verbatim>\<open>f"{parsed.scheme}://{parsed.netloc}{parsed.path}"\<close> of the link target joined to the
  base.
\<close>

definition base_url :: string where
  "base_url = ''https://www.target.com''"

definition clean_url :: "(string \<Rightarrow> bool) \<Rightarrow> string \<Rightarrow> error + string" where
  "clean_url bh href =
     (case urljoin bh base_url href of
        Inl e \<Rightarrow> Inl e
      | Inr raw_url \<Rightarrow>
         (case urlparse bh raw_url [] of
            Inl e \<Rightarrow> Inl e
          | Inr parsed \<Rightarrow> Inr (scheme parsed @ ''://'' @ netloc parsed @ path parsed)))"

section \<open>The parsed document\<close>

text \<open>
  A parsed document is the tree \<^verbatim>\<open>BeautifulSoup(html, "html.parser")\<close> builds: a tag with
  its name (lower case, as the parser stores it), its attribute dictionary and its
  children, or a text node.  All selectors of \<^verbatim>\<open>scrapper.py\<close> test single-valued
  attributes (\<^verbatim>\<open>data-test\<close>, \<^verbatim>\<open>aria-label\<close>, \<^verbatim>\<open>href\<close>), so attribute values
  are strings.
\<close>

datatype node = Tag string "(string \<times> string) list" "node list" | NavigableString string

fun tag_name :: "node \<Rightarrow> string option" where
  "tag_name (Tag n a cs) = Some n"
| "tag_name (NavigableString s) = None"

fun attr :: "node \<Rightarrow> string \<Rightarrow> string option" where
  "attr (Tag n a cs) k = map_of a k"
| "attr (NavigableString s) k = None"

text \<open>The nodes below a node, in document order (\<^verbatim>\<open>tag.descendants\<close>).\<close>

fun descendants :: "node \<Rightarrow> node list" where
  "descendants (Tag n a cs) = concat (map (\<lambda>c. c # descendants c) cs)"
| "descendants (NavigableString s) = []"

text \<open>The text nodes below a node, in document order.\<close>

fun strings :: "node \<Rightarrow> string list" where
  "strings (Tag n a cs) = concat (map strings cs)"
| "strings (NavigableString s) = [s]"

text \<open>\<^verbatim>\<open>tag.select(sel)\<close> and \<^verbatim>\<open>tag.select_one(sel)\<close>, the selector given as a test on nodes;
  the tag itself is never among the matches.\<close>

definition select :: "(node \<Rightarrow> bool) \<Rightarrow> node \<Rightarrow> node list" where
  "select sel t = filter sel (descendants t)"

definition select_one :: "(node \<Rightarrow> bool) \<Rightarrow> node \<Rightarrow> node option" where
  "select_one sel t = find sel (descendants t)"

text \<open>\<^verbatim>\<open>tag.find(string=re.compile(...))\<close>: the first text node the pattern is found in.\<close>

definition find_string :: "(string \<Rightarrow> bool) \<Rightarrow> node \<Rightarrow> string option" where
  "find_string p t = find p (strings t)"

text \<open>\<^verbatim>\<open>tag.get_text(strip=True)\<close>: the stripped text nodes, the empty ones left out, joined.\<close>

definition get_text_strip :: "node \<Rightarrow> string" where
  "get_text_strip t = concat (filter (\<lambda>s. s \<noteq> []) (map strip (strings t)))"

text \<open>The attribute selectors \<^verbatim>\<open>[k*="v"]\<close> and \<^verbatim>\<open>[k="v"]\<close>.\<close>

definition attr_contains :: "string \<Rightarrow> string \<Rightarrow> node \<Rightarrow> bool" where
  "attr_contains k v t = (case attr t k of None \<Rightarrow> False | Some x \<Rightarrow> contains v x)"

definition attr_is :: "string \<Rightarrow> string \<Rightarrow> node \<Rightarrow> bool" where
  "attr_is k v t = (attr t k = Some v)"

section \<open>Rendering a float\<close>

text \<open>
  \<^verbatim>\<open>f"{float(g)}"\<close> for a group \<open>g\<close> of the form \<^verbatim>\<open>\d+(?:\.\d+)?\<close>.  A decimal of at
  most 15 digits (leading zeros of the integer part and trailing zeros of the fraction
  apart) that is zero or at least \<^verbatim>\<open>0.0001\<close> survives the round trip through a double:
  Python prints its digits, with \<^verbatim>\<open>.0\<close> when the fraction is empty.  Longer or smaller
  literals are rounded or printed with an exponent; what Python prints for them is the
  parameter \<open>fl\<close>.
\<close>

definition float_str :: "(string \<Rightarrow> string) \<Rightarrow> string \<Rightarrow> string" where
  "float_str fl g =
     (let ip = dropWhile (\<lambda>c. c = CHR ''0'') (takeWhile is_digit g);
          fp = rev (dropWhile (\<lambda>c. c = CHR ''0'') (rev (drop 1 (dropWhile is_digit g))))
      in if length ip + length fp \<le> 15
            \<and> (ip \<noteq> [] \<or> fp = [] \<or> length (takeWhile (\<lambda>c. c = CHR ''0'') fp) \<le> 3)
         then (if ip = [] then ''0'' else ip) @ ''.'' @ (if fp = [] then ''0'' else fp)
         else fl g)"

text \<open>\<^verbatim>\<open>str(n)\<close> for a natural number.\<close>

fun decimal :: "nat \<Rightarrow> string" where
  "decimal n = (if n < 10 then [''0123456789'' ! n]
                else decimal (n div 10) @ [''0123456789'' ! (n mod 10)])"

declare decimal.simps [simp del]

section \<open>Field extractors\<close>

text \<open>
  \<^verbatim>\<open>(\d+(?:\.\d+)?)\s*out\s*of\s*5\<close> tried at the start of \<open>s\<close>; the result is group 1.
  Each greedy repetition is followed by a character outside its class, so the match that
  takes every repetition as long as possible is the only candidate at a position.
\<close>

definition rating_at :: "string \<Rightarrow> string option" where
  "rating_at s =
     (let d = takeWhile is_digit s;
          r1 = dropWhile is_digit s;
          dot = (take 1 r1 = ''.'' \<and> takeWhile is_digit (drop 1 r1) \<noteq> []);
          g = (if dot then d @ ''.'' @ takeWhile is_digit (drop 1 r1) else d);
          r2 = (if dot then dropWhile is_digit (drop 1 r1) else r1);
          r3 = dropWhile is_space r2;
          r4 = dropWhile is_space (drop 3 r3);
          r5 = dropWhile is_space (drop 2 r4)
      in if d \<noteq> [] \<and> lit ''out'' r3 \<and> lit ''of'' r4 \<and> lit ''5'' r5 then Some g else None)"

definition rating_search :: "string \<Rightarrow> string option" where
  "rating_search s = search_first rating_at s"

definition extract_star_rating :: "(string \<Rightarrow> string) \<Rightarrow> node option \<Rightarrow> string" where
  "extract_star_rating fl container =
     (case container of
        None \<Rightarrow> ''N/A''
      | Some c \<Rightarrow>
         (case (case select_one (attr_contains ''aria-label'' ''out of 5 stars'') c of
                  None \<Rightarrow> None
                | Some rating_elem \<Rightarrow>
                    (case attr rating_elem ''aria-label'' of
                       None \<Rightarrow> None
                     | Some label \<Rightarrow> rating_search label)) of
            Some g \<Rightarrow> float_str fl g @ ''/5''
          | None \<Rightarrow>
             (case select_one (\<lambda>t. tag_name t = Some ''div'' \<and> attr_is ''data-test'' ''rating-stars'' t) c of
                Some stars_container \<Rightarrow>
                  (let filled_stars = length (select (\<lambda>t. tag_name t = Some ''svg''
                                         \<and> attr_contains ''data-test'' ''full-star'' t) stars_container);
                       half_star = (select (\<lambda>t. tag_name t = Some ''svg''
                                         \<and> attr_contains ''data-test'' ''half-star'' t) stars_container \<noteq> [])
                   in float_str fl (decimal filled_stars @ (if half_star then ''.5'' else ''.0'')) @ ''/5'')
              | None \<Rightarrow>
                 (case find_string (contains ''out of 5'') c of
                    None \<Rightarrow> ''N/A''
                  | Some text_elem \<Rightarrow>
                     (case rating_search text_elem of
                        Some g \<Rightarrow> float_str fl g @ ''/5''
                      | None \<Rightarrow> ''N/A'')))))"

definition extract_review_count :: "node option \<Rightarrow> string" where
  "extract_review_count container =
     (case container of
        None \<Rightarrow> ''0''
      | Some c \<Rightarrow>
         (case select_one (attr_is ''data-test'' ''rating-count'') c of
            Some reviews_elem \<Rightarrow>
              (case first_digits (filter (\<lambda>x. x \<noteq> CHR '','') (get_text_strip reviews_elem)) of
                 Some m \<Rightarrow> m | None \<Rightarrow> ''0'')
          | None \<Rightarrow>
             (case find_string (\<lambda>s. contains ''review'' s \<or> contains ''rating'' s) c of
                Some text_elem \<Rightarrow>
                  (case first_digits (filter (\<lambda>x. x \<noteq> CHR '','') text_elem) of
                     Some m \<Rightarrow> m | None \<Rightarrow> ''0'')
              | None \<Rightarrow> ''0'')))"

text \<open>
  \<^verbatim>\<open>only \d+ left|\d+ left|only \d+ in stock|low stock\<close> under \<^verbatim>\<open>re.IGNORECASE\<close>, tried
  at the start of \<open>s\<close>.  \<open>digits_then k\<close> is \<^verbatim>\<open>\d+\<close> followed by \<open>k\<close>; every \<open>k\<close> here
  starts with a space, so only the longest run of digits can be followed by it.
\<close>

definition digits_then :: "(string \<Rightarrow> bool) \<Rightarrow> string \<Rightarrow> bool" where
  "digits_then k s \<longleftrightarrow> takeWhile is_digit s \<noteq> [] \<and> k (dropWhile is_digit s)"

definition inventory_at :: "string \<Rightarrow> bool" where
  "inventory_at s \<longleftrightarrow>
     (lit_i ''only '' s \<and> digits_then (lit_i '' left'') (drop 5 s))
     \<or> digits_then (lit_i '' left'') s
     \<or> (lit_i ''only '' s \<and> digits_then (lit_i '' in stock'') (drop 5 s))
     \<or> lit_i ''low stock'' s"

definition extract_inventory_count :: "node option \<Rightarrow> string" where
  "extract_inventory_count container =
     (case container of
        None \<Rightarrow> ''N/A''
      | Some c \<Rightarrow>
         (case find_string (search inventory_at) c of
            Some inventory_elem \<Rightarrow>
              (case first_digits inventory_elem of Some m \<Rightarrow> m | None \<Rightarrow> ''Low Stock'')
          | None \<Rightarrow> ''N/A''))"

definition is_sold_by_target :: "node option \<Rightarrow> string" where
  "is_sold_by_target container =
     (case container of
        None \<Rightarrow> ''No''
      | Some c \<Rightarrow>
         if find_string (search (lit_i ''only at target'')) c \<noteq> None then ''Yes''
         else if select_one (\<lambda>t. tag_name t = Some ''svg'' \<and> attr_is ''aria-label'' ''Target logo'' t) c
                   \<noteq> None then ''Yes''
         else if find_string (search (lit_i ''sold by target'')) c \<noteq> None then ''Yes''
         else ''No'')"

text \<open>\<^verbatim>\<open>re.search(r'/A-(\d+)', clean_url)\<close>\<close>

definition tcin_at :: "string \<Rightarrow> string option" where
  "tcin_at s = (if lit ''/A-'' s \<and> takeWhile is_digit (drop 3 s) \<noteq> []
                then Some (takeWhile is_digit (drop 3 s)) else None)"

section \<open>\<^verbatim>\<open>extract_product_data\<close>\<close>

record product =
  url :: string
  title :: string
  brand :: string
  price :: string
  rating :: string
  reviews :: string
  inventory :: string
  sold_by_target :: string
  seller_name :: string
  tcin :: string

definition is_product_card :: "node \<Rightarrow> bool" where
  "is_product_card t \<longleftrightarrow> tag_name t = Some ''div''
     \<and> (attr_contains ''data-test'' ''product-card'' t \<or> attr_contains ''data-test'' ''@web/ProductCard'' t)"

definition is_title_link :: "node \<Rightarrow> bool" where
  "is_title_link t \<longleftrightarrow> tag_name t = Some ''a'' \<and> attr_contains ''href'' ''/p/'' t
     \<and> attr_is ''data-test'' ''product-title'' t"

text \<open>The record built at the end of the loop body, lines 92 to 115.\<close>

definition build_product :: "(string \<Rightarrow> string) \<Rightarrow> node \<Rightarrow> node \<Rightarrow> string \<Rightarrow> node \<Rightarrow> product" where
  "build_product fl container link clean price_elem =
     (let sold_by = is_sold_by_target (Some container)
      in \<lparr>url = clean,
          title = get_text_strip link,
          brand = (case select_one (attr_contains ''data-test'' ''brand'') container of
                     Some brand_elem \<Rightarrow> get_text_strip brand_elem | None \<Rightarrow> ''N/A''),
          price = get_text_strip price_elem,
          rating = extract_star_rating fl (Some container),
          reviews = extract_review_count (Some container),
          inventory = extract_inventory_count (Some container),
          sold_by_target = sold_by,
          seller_name = (if sold_by = ''Yes'' then ''Target'' else ''N/A''),
          tcin = (case search_first tcin_at clean of Some m \<Rightarrow> m | None \<Rightarrow> ''N/A'')\<rparr>)"

text \<open>
  The loop over \<^verbatim>\<open>product_containers\<close>, with \<^verbatim>\<open>seen_urls\<close> and \<^verbatim>\<open>products\<close> as they
  stand before the container.  A \<^verbatim>\<open>ValueError\<close> of \<^verbatim>\<open>urljoin\<close> or \<^verbatim>\<open>urlparse\<close> leaves
  the function.
\<close>

fun product_loop :: "(string \<Rightarrow> string) \<Rightarrow> (string \<Rightarrow> bool) \<Rightarrow> node list \<Rightarrow> string set
      \<Rightarrow> product list \<Rightarrow> error + product list" where
  "product_loop fl bh [] seen_urls products = Inr products"
| "product_loop fl bh (container # rest) seen_urls products =
     (case select_one is_title_link container of
        None \<Rightarrow> product_loop fl bh rest seen_urls products
      | Some link \<Rightarrow>
         (case attr link ''href'' of
            None \<Rightarrow> product_loop fl bh rest seen_urls products
          | Some href \<Rightarrow>
             (case clean_url bh href of
                Inl e \<Rightarrow> Inl e
              | Inr clean \<Rightarrow>
                 if clean \<in> seen_urls then product_loop fl bh rest seen_urls products
                 else if get_text_strip link = [] then
                   product_loop fl bh rest (insert clean seen_urls) products
                 else
                   (case select_one (attr_is ''data-test'' ''current-price'') container of
                      None \<Rightarrow> product_loop fl bh rest (insert clean seen_urls) products
                    | Some price_elem \<Rightarrow>
                        product_loop fl bh rest (insert clean seen_urls)
                          (products @ [build_product fl container link clean price_elem])))))"

definition extract_product_data :: "(string \<Rightarrow> string) \<Rightarrow> (string \<Rightarrow> bool) \<Rightarrow> node
      \<Rightarrow> error + product list" where
  "extract_product_data fl bh soup = product_loop fl bh (select is_product_card soup) {} []"

section \<open>\<^verbatim>\<open>scrape_all_pages\<close>\<close>

text \<open>
  One entry per page number: \<open>None\<close> when the file does not exist, else the parsed
  document.  The state is \<^verbatim>\<open>existing_urls\<close>, \<^verbatim>\<open>all_products\<close> and
  \<^verbatim>\<open>new_products_count\<close>.  An exception inside the \<^verbatim>\<open>try\<close> skips the page.
\<close>

fun scrape_loop :: "(string \<Rightarrow> string) \<Rightarrow> (string \<Rightarrow> bool) \<Rightarrow> node option list
      \<Rightarrow> string set \<times> product list \<times> nat \<Rightarrow> string set \<times> product list \<times> nat" where
  "scrape_loop fl bh [] st = st"
| "scrape_loop fl bh (None # pages) st = scrape_loop fl bh pages st"
| "scrape_loop fl bh (Some soup # pages) (existing_urls, all_products, new_products_count) =
     (case extract_product_data fl bh soup of
        Inl e \<Rightarrow> scrape_loop fl bh pages (existing_urls, all_products, new_products_count)
      | Inr products \<Rightarrow>
          (let new_products = filter (\<lambda>p. url p \<notin> existing_urls) products
           in scrape_loop fl bh pages
                (existing_urls \<union> set (map url new_products),
                 all_products @ new_products,
                 new_products_count + length new_products)))"

definition scrape_all_pages :: "(string \<Rightarrow> string) \<Rightarrow> (string \<Rightarrow> bool) \<Rightarrow> string set
      \<Rightarrow> node option list \<Rightarrow> product list \<times> nat" where
  "scrape_all_pages fl bh existing_urls pages = snd (scrape_loop fl bh pages (existing_urls, [], 0))"

section \<open>Notions used to state the properties\<close>

text \<open>
  What the loop body of \<^verbatim>\<open>extract_product_data\<close> computes for one container before it
  looks at \<^verbatim>\<open>seen_urls\<close>: no title link (\<open>None\<close>), a \<^verbatim>\<open>ValueError\<close>, or the identity.
\<close>

definition card_identity :: "(string \<Rightarrow> bool) \<Rightarrow> node \<Rightarrow> (error + string) option" where
  "card_identity bh container =
     (case select_one is_title_link container of
        None \<Rightarrow> None
      | Some link \<Rightarrow>
          (case attr link ''href'' of None \<Rightarrow> None | Some href \<Rightarrow> Some (clean_url bh href)))"

text \<open>The title text of a container (empty when it has no title link) and its price marker.\<close>

definition card_title :: "node \<Rightarrow> string" where
  "card_title container =
     (case select_one is_title_link container of None \<Rightarrow> [] | Some link \<Rightarrow> get_text_strip link)"

definition price_marker :: "node \<Rightarrow> node option" where
  "price_marker container = select_one (attr_is ''data-test'' ''current-price'') container"

text \<open>The record a container yields when its identity has not been seen.\<close>

definition card_record :: "(string \<Rightarrow> string) \<Rightarrow> (string \<Rightarrow> bool) \<Rightarrow> node \<Rightarrow> product option" where
  "card_record fl bh container =
     (case select_one is_title_link container of
        None \<Rightarrow> None
      | Some link \<Rightarrow>
          (case card_identity bh container of
             Some (Inr clean) \<Rightarrow>
               (if get_text_strip link = [] then None
                else (case price_marker container of
                        None \<Rightarrow> None
                      | Some price_elem \<Rightarrow> Some (build_product fl container link clean price_elem)))
           | _ \<Rightarrow> None))"

text \<open>The records of the pages that \<^verbatim>\<open>scrape_all_pages\<close> does not skip, in page order.\<close>

fun extracted :: "(string \<Rightarrow> string) \<Rightarrow> (string \<Rightarrow> bool) \<Rightarrow> node option list \<Rightarrow> product list" where
  "extracted fl bh [] = []"
| "extracted fl bh (None # pages) = extracted fl bh pages"
| "extracted fl bh (Some soup # pages) =
     (case extract_product_data fl bh soup of
        Inl e \<Rightarrow> extracted fl bh pages
      | Inr products \<Rightarrow> products @ extracted fl bh pages)"

text \<open>
  The dedup layer in the words of the specification (section 4.4): a record is returned
  when its identity is absent from the identity set, and each accepted identity is added
  to the set before the next record is looked at.
\<close>

fun dedupe :: "string set \<Rightarrow> product list \<Rightarrow> product list \<times> string set" where
  "dedupe known [] = ([], known)"
| "dedupe known (r # records) =
     (if url r \<in> known then dedupe known records
      else (case dedupe (insert (url r) known) records of
              (novel, known') \<Rightarrow> (r # novel, known')))"

text \<open>A group of the rating pattern: digits, optionally a dot and more digits.\<close>

definition decimal_literal :: "string \<Rightarrow> bool" where
  "decimal_literal g \<longleftrightarrow>
     takeWhile is_digit g \<noteq> []
     \<and> (dropWhile is_digit g = []
        \<or> (take 1 (dropWhile is_digit g) = ''.'' \<and> drop 1 (dropWhile is_digit g) \<noteq> []
            \<and> list_all is_digit (drop 1 (dropWhile is_digit g))))"

section \<open>Sample documents\<close>

text \<open>
  The card of the end-to-end example of the specification: title \<^verbatim>\<open>Hero Figure X\<close>,
  price \<^verbatim>\<open>$19.99\<close>, the given children after the title link.
\<close>

definition sample_link :: node where
  "sample_link = Tag ''a'' [(''href'', ''/p/hero-figure-x/-/A-123?preselect=1''),
                            (''data-test'', ''product-title'')] [NavigableString ''Hero Figure X'']"

definition sample_price :: node where
  "sample_price = Tag ''span'' [(''data-test'', ''current-price'')] [NavigableString ''$19.99'']"

definition sample_card :: "node list \<Rightarrow> node" where
  "sample_card extra = Tag ''div'' [(''data-test'', ''@web/ProductCardWrapper'')] (sample_link # extra)"

definition sample_page :: "node list \<Rightarrow> node" where
  "sample_page cards = Tag ''[document]'' [] [Tag ''html'' [] [Tag ''body'' [] cards]]"

text \<open>Two cards with the same link: the first without a price marker, or both complete.\<close>

definition shadowed_page :: node where
  "shadowed_page = sample_page [sample_card [], sample_card [sample_price]]"

definition repeated_page :: node where
  "repeated_page = sample_page [sample_card [sample_price],
                     sample_card [sample_price, NavigableString ''Sold by Target'']]"

definition sample_url :: string where
  "sample_url = ''https://www.target.com/p/hero-figure-x/-/A-123''"

definition sample_record :: product where
  "sample_record = \<lparr>url = sample_url, title = ''Hero Figure X'', brand = ''N/A'',
     price = ''$19.99'', rating = ''N/A'', reviews = ''0'', inventory = ''N/A'',
     sold_by_target = ''No'', seller_name = ''N/A'', tcin = ''123''\<rparr>"

text \<open>A rating label of nine stars, and a container with two rating labels.\<close>

definition nine_star_label :: node where
  "nine_star_label = Tag ''span'' [(''aria-label'', ''9 out of 5 stars'')] []"

definition two_label_card :: node where
  "two_label_card = Tag ''div'' [(''data-test'', ''product-card'')]
     [Tag ''span'' [(''aria-label'', ''3 out of 5 stars'')] [],
      Tag ''span'' [(''aria-label'', ''4.5 out of 5 stars'')] []]"

text \<open>
  The rating field in the words of the specification (section 3): the unknown sentinel,
  or \<^verbatim>\<open><v>/5\<close> with \<open>v\<close> a decimal between 0 and 5.
\<close>

definition rating_in_range :: "string \<Rightarrow> bool" where
  "rating_in_range r \<longleftrightarrow>
     r = ''N/A''
     \<or> (let g = take (length r - 2) r;
             ip = dropWhile (\<lambda>c. c = CHR ''0'') (takeWhile is_digit g);
             fp = drop 1 (dropWhile is_digit g)
         in drop (length r - 2) r = ''/5'' \<and> decimal_literal g
            \<and> (ip \<in> set [[], ''1'', ''2'', ''3'', ''4'']
                \<or> (ip = ''5'' \<and> list_all (\<lambda>c. c = CHR ''0'') fp)))"

text \<open>
  The inventory patterns in the words of the specification (section 4.2): somewhere in
  the text, case-insensitively, \<^verbatim>\<open>only N left\<close>, \<^verbatim>\<open>N left\<close>, \<^verbatim>\<open>only N in stock\<close> with
  \<open>N\<close> a number, or \<^verbatim>\<open>low stock\<close>.
\<close>

definition inventory_phrase :: "string \<Rightarrow> bool" where
  "inventory_phrase s \<longleftrightarrow>
     (\<exists>a n b. n \<noteq> [] \<and> list_all is_digit n
        \<and> (map lower s = a @ ''only '' @ n @ '' left'' @ b
            \<or> map lower s = a @ n @ '' left'' @ b
            \<or> map lower s = a @ ''only '' @ n @ '' in stock'' @ b))
     \<or> (\<exists>a b. map lower s = a @ ''low stock'' @ b)"

section \<open>One container of the loop\<close>

lemma loop_no_link:
  "card_identity bh c = None \<Longrightarrow> product_loop fl bh (c # rest) seen ps = product_loop fl bh rest seen ps"
  by (auto simp: card_identity_def split: option.splits)

lemma loop_error:
  "card_identity bh c = Some (Inl e) \<Longrightarrow> product_loop fl bh (c # rest) seen ps = Inl e"
  by (auto simp: card_identity_def split: option.splits)

lemma loop_seen:
  "card_identity bh c = Some (Inr u) \<Longrightarrow> u \<in> seen \<Longrightarrow>
   product_loop fl bh (c # rest) seen ps = product_loop fl bh rest seen ps"
  by (auto simp: card_identity_def split: option.splits)

lemma loop_new:
  "card_identity bh c = Some (Inr u) \<Longrightarrow> u \<notin> seen \<Longrightarrow>
   product_loop fl bh (c # rest) seen ps =
     product_loop fl bh rest (insert u seen)
       (case card_record fl bh c of None \<Rightarrow> ps | Some r \<Rightarrow> ps @ [r])"
  by (auto simp: card_identity_def card_record_def price_marker_def split: option.splits)

lemma card_record_url:
  "card_record fl bh c = Some r \<Longrightarrow> card_identity bh c = Some (Inr (url r))"
  by (auto simp: card_record_def build_product_def Let_def split: option.splits sum.splits if_splits)

lemma product_loop_new_records:
  "product_loop fl bh cs seen ps = Inr out \<Longrightarrow>
   \<exists>new. out = ps @ new \<and> distinct (map url new)
     \<and> (\<forall>p\<in>set new. url p \<notin> seen \<and> (\<exists>c\<in>set cs. card_record fl bh c = Some p))"
proof (induction cs arbitrary: seen ps)
  case Nil
  then show ?case by simp
next
  case (Cons c cs)
  show ?case
  proof (cases "card_identity bh c")
    case None
    with Cons.prems have "product_loop fl bh cs seen ps = Inr out"
      by (simp add: loop_no_link del: product_loop.simps)
    from Cons.IH [OF this] show ?thesis by auto
  next
    case (Some i)
    show ?thesis
    proof (cases i)
      case (Inl e)
      with Some Cons.prems show ?thesis by (simp add: loop_error del: product_loop.simps)
    next
      case (Inr u)
      show ?thesis
      proof (cases "u \<in> seen")
        case True
        with Some Inr Cons.prems have "product_loop fl bh cs seen ps = Inr out"
          by (simp add: loop_seen del: product_loop.simps)
        from Cons.IH [OF this] show ?thesis by auto
      next
        case False
        let ?ps = "case card_record fl bh c of None \<Rightarrow> ps | Some r \<Rightarrow> ps @ [r]"
        from False Some Inr Cons.prems
        have "product_loop fl bh cs (insert u seen) ?ps = Inr out"
          by (simp add: loop_new del: product_loop.simps)
        from Cons.IH [OF this] obtain new where new: "out = ?ps @ new" "distinct (map url new)"
          "\<forall>p\<in>set new. url p \<notin> insert u seen \<and> (\<exists>c\<in>set cs. card_record fl bh c = Some p)"
          by blast
        show ?thesis
        proof (cases "card_record fl bh c")
          case None
          with new show ?thesis by auto
        next
          case (Some r)
          from card_record_url [OF Some] \<open>card_identity bh c = Some i\<close> Inr have ur: "url r = u"
            by simp
          have "out = ps @ (r # new)" using new(1) Some by simp
          moreover have "distinct (map url (r # new))" using new(2,3) ur by auto
          moreover have "\<forall>p\<in>set (r # new). url p \<notin> seen \<and> (\<exists>c'\<in>set (c # cs). card_record fl bh c' = Some p)"
            using new(3) ur False Some by auto
          ultimately show ?thesis by blast
        qed
      qed
    qed
  qed
qed

lemma product_loop_first:
  "\<forall>c'\<in>set pre. card_identity bh c' \<noteq> Some (Inr u) \<Longrightarrow> card_identity bh c = Some (Inr u) \<Longrightarrow>
   u \<notin> seen \<Longrightarrow> product_loop fl bh (pre @ c # post) seen ps = Inr out \<Longrightarrow>
   filter (\<lambda>p. url p = u) out
     = filter (\<lambda>p. url p = u) ps @ (case card_record fl bh c of None \<Rightarrow> [] | Some r \<Rightarrow> [r])"
proof (induction pre arbitrary: seen ps)
  case Nil
  let ?ps = "case card_record fl bh c of None \<Rightarrow> ps | Some r \<Rightarrow> ps @ [r]"
  from Nil have "product_loop fl bh post (insert u seen) ?ps = Inr out"
    by (simp add: loop_new del: product_loop.simps)
  from product_loop_new_records [OF this] obtain new where
    new: "out = ?ps @ new" "\<forall>p\<in>set new. url p \<notin> insert u seen" by blast
  then have "filter (\<lambda>p. url p = u) new = []" by (auto simp: filter_empty_conv)
  with new(1) have "filter (\<lambda>p. url p = u) out = filter (\<lambda>p. url p = u) ?ps" by simp
  moreover have "\<And>r. card_record fl bh c = Some r \<Longrightarrow> url r = u"
    using card_record_url Nil.prems(2) by fastforce
  ultimately show ?case by (auto split: option.splits)
next
  case (Cons c' pre)
  from Cons.prems(1) have ne: "card_identity bh c' \<noteq> Some (Inr u)"
    and rest: "\<forall>x\<in>set pre. card_identity bh x \<noteq> Some (Inr u)" by auto
  show ?case
  proof (cases "card_identity bh c'")
    case None
    with Cons.prems(4) have "product_loop fl bh (pre @ c # post) seen ps = Inr out"
      by (simp add: loop_no_link del: product_loop.simps)
    from Cons.IH [OF rest Cons.prems(2,3) this] show ?thesis .
  next
    case (Some i)
    show ?thesis
    proof (cases i)
      case (Inl e)
      with Some Cons.prems(4) show ?thesis by (simp add: loop_error del: product_loop.simps)
    next
      case (Inr v)
      with Some ne have vu: "v \<noteq> u" by auto
      show ?thesis
      proof (cases "v \<in> seen")
        case True
        with Some Inr Cons.prems(4) have "product_loop fl bh (pre @ c # post) seen ps = Inr out"
          by (simp add: loop_seen del: product_loop.simps)
        from Cons.IH [OF rest Cons.prems(2,3) this] show ?thesis .
      next
        case False
        let ?ps = "case card_record fl bh c' of None \<Rightarrow> ps | Some r \<Rightarrow> ps @ [r]"
        from False Some Inr Cons.prems(4)
        have run: "product_loop fl bh (pre @ c # post) (insert v seen) ?ps = Inr out"
          by (simp add: loop_new del: product_loop.simps)
        have "u \<notin> insert v seen" using vu Cons.prems(3) by auto
        from Cons.IH [OF rest Cons.prems(2) this run]
        have "filter (\<lambda>p. url p = u) out
          = filter (\<lambda>p. url p = u) ?ps @ (case card_record fl bh c of None \<Rightarrow> [] | Some r \<Rightarrow> [r])" .
        moreover have "\<And>r. card_record fl bh c' = Some r \<Longrightarrow> url r \<noteq> u"
          using card_record_url Some Inr vu by fastforce
        then have "filter (\<lambda>p. url p = u) ?ps = filter (\<lambda>p. url p = u) ps"
          by (auto split: option.splits)
        ultimately show ?thesis by simp
      qed
    qed
  qed
qed

lemma extract_distinct:
  "extract_product_data fl bh soup = Inr ps \<Longrightarrow> distinct (map url ps)"
  unfolding extract_product_data_def by (drule product_loop_new_records) auto

lemma dedupe_distinct_filter:
  "distinct (map url ps) \<Longrightarrow>
   dedupe E ps = (filter (\<lambda>p. url p \<notin> E) ps, E \<union> set (map url (filter (\<lambda>p. url p \<notin> E) ps)))"
proof (induction ps arbitrary: E)
  case Nil
  then show ?case by simp
next
  case (Cons r rs)
  then have d: "distinct (map url rs)" and nr: "url r \<notin> url ` set rs" by auto
  from nr have "filter (\<lambda>p. url p \<notin> insert (url r) E) rs = filter (\<lambda>p. url p \<notin> E) rs"
    by (intro filter_cong refl) (metis image_eqI insert_iff)
  with Cons.IH [OF d] show ?case by auto
qed

lemma dedupe_append:
  "dedupe E (xs @ ys) =
     (fst (dedupe E xs) @ fst (dedupe (snd (dedupe E xs)) ys), snd (dedupe (snd (dedupe E xs)) ys))"
  by (induction xs arbitrary: E) (auto split: prod.splits)

lemma scrape_loop_dedupe:
  "scrape_loop fl bh pages (E, A, n) =
     (snd (dedupe E (extracted fl bh pages)),
      A @ fst (dedupe E (extracted fl bh pages)),
      n + length (fst (dedupe E (extracted fl bh pages))))"
proof (induction pages arbitrary: E A n)
  case Nil
  then show ?case by simp
next
  case (Cons pg pages)
  show ?case
  proof (cases pg)
    case None
    then show ?thesis using Cons.IH by simp
  next
    case (Some soup)
    show ?thesis
    proof (cases "extract_product_data fl bh soup")
      case (Inl e)
      then show ?thesis using Some Cons.IH by simp
    next
      case (Inr ps)
      from extract_distinct [OF Inr] have "distinct (map url ps)" .
      from dedupe_distinct_filter [OF this, of E]
      show ?thesis using Some Inr Cons.IH by (simp add: dedupe_append Let_def)
    qed
  qed
qed

lemma dedupe_props:
  "dedupe E xs = (new, E') \<Longrightarrow>
   E' = E \<union> url ` set new \<and> distinct (map url new) \<and> (\<forall>p\<in>set new. url p \<notin> E)
   \<and> url ` set xs \<subseteq> E' \<and> set new \<subseteq> set xs"
proof (induction xs arbitrary: E new E')
  case Nil
  then show ?case by simp
next
  case (Cons r rs)
  show ?case
  proof (cases "url r \<in> E")
    case True
    with Cons.prems have "dedupe E rs = (new, E')" by simp
    from Cons.IH [OF this] True show ?thesis by auto
  next
    case False
    obtain n1 E1 where d: "dedupe (insert (url r) E) rs = (n1, E1)" by (cases "dedupe (insert (url r) E) rs")
    with False Cons.prems have nw: "new = r # n1" "E' = E1" by auto
    from Cons.IH [OF d] False nw show ?thesis by auto
  qed
qed

lemma dedupe_known:
  "url ` set xs \<subseteq> E \<Longrightarrow> dedupe E xs = ([], E)"
  by (induction xs) auto

lemma distinct_count_one:
  "distinct (map f xs) \<Longrightarrow> u \<in> f ` set xs \<Longrightarrow> length (filter (\<lambda>p. f p = u) xs) = 1"
proof (induction xs)
  case Nil
  then show ?case by simp
next
  case (Cons x xs)
  show ?case
  proof (cases "f x = u")
    case True
    with Cons.prems have "u \<notin> f ` set xs" by auto
    then have "filter (\<lambda>p. f p = u) xs = []" by (auto simp: filter_empty_conv)
    with True show ?thesis by simp
  next
    case False
    with Cons show ?thesis by auto
  qed
qed

lemma card_record_build:
  "card_record fl bh c = Some p \<Longrightarrow>
   \<exists>link pe. select_one is_title_link c = Some link \<and> get_text_strip link \<noteq> []
     \<and> price_marker c = Some pe \<and> p = build_product fl c link (url p) pe"
  by (auto simp: card_record_def build_product_def Let_def split: option.splits sum.splits if_splits)

lemma extract_records:
  "extract_product_data fl bh soup = Inr ps \<Longrightarrow> p \<in> set ps \<Longrightarrow>
   \<exists>c\<in>set (select is_product_card soup). card_record fl bh c = Some p"
  unfolding extract_product_data_def by (drule product_loop_new_records) auto

lemma sample_card_identity: "card_identity bh (sample_card extra) = Some (Inr sample_url)"
  by code_simp

lemma shadowed_page_cards:
  "select is_product_card shadowed_page = [sample_card [], sample_card [sample_price]]"
  by code_simp

lemma repeated_page_cards:
  "select is_product_card repeated_page
     = [sample_card [sample_price], sample_card [sample_price, NavigableString ''Sold by Target'']]"
  by code_simp

lemma sample_page_one: "extract_product_data fl bh (sample_page [sample_card [sample_price]]) = Inr [sample_record]"
  by code_simp

lemma shadowed_page_records: "extract_product_data fl bh shadowed_page = Inr []"
  by code_simp

lemma repeated_page_records: "extract_product_data fl bh repeated_page = Inr [sample_record]"
  by code_simp

lemma build_product_seller:
  "(seller_name (build_product fl c link cl pe) = ''Target''
      \<longleftrightarrow> sold_by_target (build_product fl c link cl pe) = ''Yes'')
   \<and> (sold_by_target (build_product fl c link cl pe) \<noteq> ''Yes''
      \<longrightarrow> seller_name (build_product fl c link cl pe) = ''N/A'')"
  by (simp add: build_product_def Let_def)

lemma sample_card_valid: "card_record fl bh (sample_card [sample_price]) = Some sample_record"
  by code_simp

section \<open>Properties of \<^verbatim>\<open>extract_product_data\<close>\<close>

text \<open>
  C7. For every record that \<^verbatim>\<open>extract_product_data\<close> emits, \<^verbatim>\<open>seller_name\<close> is
  \<^verbatim>\<open>"Target"\<close> if and only if \<^verbatim>\<open>sold_by_target\<close> is \<^verbatim>\<open>"Yes"\<close>, and it is \<^verbatim>\<open>"N/A"\<close>
  otherwise.
\<close>

theorem seller_name_iff_sold_by_target:
  "extract_product_data fl bh soup = Inr products \<Longrightarrow> p \<in> set products \<Longrightarrow>
   (seller_name p = ''Target'' \<longleftrightarrow> sold_by_target p = ''Yes'')
   \<and> (sold_by_target p \<noteq> ''Yes'' \<longrightarrow> seller_name p = ''N/A'')"
proof -
  assume "extract_product_data fl bh soup = Inr products" "p \<in> set products"
  from extract_records [OF this] obtain c where "card_record fl bh c = Some p" by blast
  from card_record_build [OF this] obtain link pe where
    "p = build_product fl c link (url p) pe" by blast
  then show ?thesis by (metis build_product_seller)
qed

theorem seller_name_iff_sold_by_target_witness:
  "extract_product_data (\<lambda>g. g) (\<lambda>h. True)
       (sample_page [sample_card [sample_price, NavigableString ''Sold by Target'']])
     = Inr [sample_record\<lparr>sold_by_target := ''Yes'', seller_name := ''Target''\<rparr>]
   \<and> (seller_name (sample_record\<lparr>sold_by_target := ''Yes'', seller_name := ''Target''\<rparr>) = ''Target''
        \<longleftrightarrow> sold_by_target (sample_record\<lparr>sold_by_target := ''Yes'', seller_name := ''Target''\<rparr>) = ''Yes'')"
proof -
  let ?r = "sample_record\<lparr>sold_by_target := ''Yes'', seller_name := ''Target''\<rparr>"
  have h: "extract_product_data (\<lambda>g. g) (\<lambda>h. True)
       (sample_page [sample_card [sample_price, NavigableString ''Sold by Target'']]) = Inr [?r]"
    by code_simp
  have m: "?r \<in> set [?r]" by simp
  from seller_name_iff_sold_by_target [OF h m] h show ?thesis by blast
qed

text \<open>
  C3. A container with a resolvable identity and a non-empty title but no current-price
  marker adds no record and raises no error: the loop goes on with the products it had
  (the identity is recorded as seen), the container has no record, and every record of a
  document that contains it is the record of another container.
\<close>

theorem missing_price_no_record:
  "card_identity bh c = Some (Inr u) \<Longrightarrow> card_title c \<noteq> [] \<Longrightarrow> price_marker c = None \<Longrightarrow>
   product_loop fl bh (c # rest) seen products = product_loop fl bh rest (insert u seen) products
   \<and> card_record fl bh c = None
   \<and> (extract_product_data fl bh soup = Inr out \<and> p \<in> set out \<longrightarrow>
        (\<exists>c'\<in>set (select is_product_card soup). c' \<noteq> c \<and> card_record fl bh c' = Some p))"
proof -
  assume i: "card_identity bh c = Some (Inr u)" and t: "card_title c \<noteq> []"
    and pm: "price_marker c = None"
  from pm have none: "card_record fl bh c = None"
    by (auto simp: card_record_def split: option.splits sum.splits)
  have "product_loop fl bh (c # rest) seen products = product_loop fl bh rest (insert u seen) products"
  proof (cases "u \<in> seen")
    case True
    then show ?thesis using i by (simp add: loop_seen insert_absorb del: product_loop.simps)
  next
    case False
    then show ?thesis using i none by (simp add: loop_new del: product_loop.simps)
  qed
  moreover have "\<exists>c'\<in>set (select is_product_card soup). c' \<noteq> c \<and> card_record fl bh c' = Some p"
    if "extract_product_data fl bh soup = Inr out" "p \<in> set out"
    using extract_records [OF that] none by force
  ultimately show ?thesis using none by blast
qed

theorem missing_price_no_record_witness:
  "card_identity (\<lambda>h. True) (sample_card []) = Some (Inr sample_url)
   \<and> card_title (sample_card []) = ''Hero Figure X''
   \<and> price_marker (sample_card []) = None
   \<and> product_loop (\<lambda>g. g) (\<lambda>h. True) [sample_card []] {} [] = Inr []
   \<and> card_record (\<lambda>g. g) (\<lambda>h. True) (sample_card []) = None"
proof -
  have i: "card_identity (\<lambda>h. True) (sample_card []) = Some (Inr sample_url)"
    by (rule sample_card_identity)
  have t: "card_title (sample_card []) = ''Hero Figure X''" by code_simp
  then have t': "card_title (sample_card []) \<noteq> []" by simp
  have pm: "price_marker (sample_card []) = None" by code_simp
  from missing_price_no_record [OF i t' pm, of "\<lambda>g. g" "[]" "{}" "[]"] i t pm
  show ?thesis by simp
qed

text \<open>
  C10. The identity of a container is put into \<^verbatim>\<open>seen_urls\<close> before its title and price
  are checked.  So when the first container of a document that bears an identity has an
  empty title or no price marker, the document yields no record with that identity,
  whatever follows; and there is a document that yields no record although one of its
  containers, taken alone, is a complete card.
\<close>

theorem identity_seen_before_checks:
  "(card_identity bh c = Some (Inr u) \<and> (card_title c = [] \<or> price_marker c = None) \<and> u \<notin> seen
      \<longrightarrow> product_loop fl bh (c # rest) seen products
            = product_loop fl bh rest (insert u seen) products)
   \<and> (select is_product_card soup = pre @ c # post
        \<and> (\<forall>c'\<in>set pre. card_identity bh c' \<noteq> Some (Inr u))
        \<and> card_identity bh c = Some (Inr u)
        \<and> (card_title c = [] \<or> price_marker c = None)
        \<and> extract_product_data fl bh soup = Inr out
      \<longrightarrow> (\<forall>p\<in>set out. url p \<noteq> u))
   \<and> (\<exists>doc card r. card \<in> set (select is_product_card doc) \<and> card_record fl bh card = Some r
         \<and> extract_product_data fl bh doc = Inr [])"
proof (intro conjI impI)
  assume a: "card_identity bh c = Some (Inr u) \<and> (card_title c = [] \<or> price_marker c = None) \<and> u \<notin> seen"
  then have "card_record fl bh c = None"
    by (auto simp: card_record_def card_title_def split: option.splits sum.splits)
  with a show "product_loop fl bh (c # rest) seen products
      = product_loop fl bh rest (insert u seen) products"
    by (simp add: loop_new del: product_loop.simps)
next
  assume a: "select is_product_card soup = pre @ c # post
        \<and> (\<forall>c'\<in>set pre. card_identity bh c' \<noteq> Some (Inr u))
        \<and> card_identity bh c = Some (Inr u)
        \<and> (card_title c = [] \<or> price_marker c = None)
        \<and> extract_product_data fl bh soup = Inr out"
  then have none: "card_record fl bh c = None"
    by (auto simp: card_record_def card_title_def split: option.splits sum.splits)
  from a have sel: "select is_product_card soup = pre @ c # post"
    and e: "extract_product_data fl bh soup = Inr out" by blast+
  from e have run: "product_loop fl bh (pre @ c # post) {} [] = Inr out"
    unfolding extract_product_data_def sel .
  from a have "\<forall>c'\<in>set pre. card_identity bh c' \<noteq> Some (Inr u)"
    and "card_identity bh c = Some (Inr u)" by blast+
  from product_loop_first [OF this _ run] none
  have "filter (\<lambda>p. url p = u) out = []" by simp
  then show "\<forall>p\<in>set out. url p \<noteq> u" by (simp add: filter_empty_conv)
next
  have "sample_card [sample_price] \<in> set (select is_product_card shadowed_page)"
    by (simp add: shadowed_page_cards)
  with sample_card_valid shadowed_page_records
  show "\<exists>doc card r. card \<in> set (select is_product_card doc) \<and> card_record fl bh card = Some r
         \<and> extract_product_data fl bh doc = Inr []"
    by blast
qed

theorem identity_seen_before_checks_witness:
  "select is_product_card shadowed_page
      = [] @ sample_card [] # [sample_card [sample_price]]
   \<and> card_identity (\<lambda>h. True) (sample_card []) = Some (Inr sample_url)
   \<and> price_marker (sample_card []) = None
   \<and> card_record (\<lambda>g. g) (\<lambda>h. True) (sample_card [sample_price]) = Some sample_record
   \<and> extract_product_data (\<lambda>g. g) (\<lambda>h. True) shadowed_page
      = Inr []
   \<and> url sample_record \<notin> url ` set ([] :: product list)"
proof -
  have s: "select is_product_card shadowed_page
      = [] @ sample_card [] # [sample_card [sample_price]]"
    by (simp add: shadowed_page_cards repeated_page_cards)
  have i: "card_identity (\<lambda>h. True) (sample_card []) = Some (Inr sample_url)"
    by (rule sample_card_identity)
  have pm: "price_marker (sample_card []) = None" by code_simp
  have e: "extract_product_data (\<lambda>g. g) (\<lambda>h. True)
      shadowed_page = Inr []"
    by (rule shadowed_page_records)
  from identity_seen_before_checks [of "\<lambda>h. True" "sample_card []" sample_url "{}" "\<lambda>g. g" "[]" "[]"
      shadowed_page "[]" "[sample_card [sample_price]]" "[]"]
    s i pm e sample_card_valid [of "\<lambda>g. g" "\<lambda>h. True"]
  show ?thesis by simp
qed

text \<open>
  C2, as the code has it.  A document yields at most one record for an identity.  When
  extraction raises no error and the first container (in document order) that resolves to
  the identity has a non-empty title and a price marker, the document yields exactly one
  record for the identity, the record of that first container; containers that resolve to
  the identity later are dropped.
\<close>

theorem first_seen_wins:
  "extract_product_data fl bh soup = Inr out \<Longrightarrow>
   distinct (map url out)
   \<and> length (filter (\<lambda>p. url p = u) out) \<le> 1
   \<and> (select is_product_card soup = pre @ c # post
        \<and> (\<forall>c'\<in>set pre. card_identity bh c' \<noteq> Some (Inr u))
        \<and> card_identity bh c = Some (Inr u) \<and> card_title c \<noteq> [] \<and> price_marker c \<noteq> None
      \<longrightarrow> (\<exists>r. card_record fl bh c = Some r \<and> filter (\<lambda>p. url p = u) out = [r]))"
proof (intro conjI impI)
  assume e: "extract_product_data fl bh soup = Inr out"
  from extract_distinct [OF e] show d: "distinct (map url out)" .
  show "length (filter (\<lambda>p. url p = u) out) \<le> 1"
  proof (cases "u \<in> url ` set out")
    case True
    from distinct_count_one [OF d True] show ?thesis by simp
  next
    case False
    then have "filter (\<lambda>p. url p = u) out = []" by (auto simp: filter_empty_conv)
    then show ?thesis by simp
  qed
  assume a: "select is_product_card soup = pre @ c # post
        \<and> (\<forall>c'\<in>set pre. card_identity bh c' \<noteq> Some (Inr u))
        \<and> card_identity bh c = Some (Inr u) \<and> card_title c \<noteq> [] \<and> price_marker c \<noteq> None"
  then obtain r where r: "card_record fl bh c = Some r"
    by (auto simp: card_record_def card_title_def split: option.splits sum.splits)
  from a have sel: "select is_product_card soup = pre @ c # post" by blast
  from e have run: "product_loop fl bh (pre @ c # post) {} [] = Inr out"
    unfolding extract_product_data_def sel .
  from a have "\<forall>c'\<in>set pre. card_identity bh c' \<noteq> Some (Inr u)"
    and "card_identity bh c = Some (Inr u)" by blast+
  from product_loop_first [OF this _ run] r
  show "\<exists>r. card_record fl bh c = Some r \<and> filter (\<lambda>p. url p = u) out = [r]" by simp
qed

theorem first_seen_wins_witness:
  "extract_product_data (\<lambda>g. g) (\<lambda>h. True)
      repeated_page
     = Inr [sample_record]
   \<and> select is_product_card
      repeated_page
     = [] @ sample_card [sample_price] # [sample_card [sample_price, NavigableString ''Sold by Target'']]
   \<and> card_identity (\<lambda>h. True) (sample_card [sample_price, NavigableString ''Sold by Target''])
     = Some (Inr sample_url)
   \<and> card_record (\<lambda>g. g) (\<lambda>h. True) (sample_card [sample_price]) = Some sample_record
   \<and> filter (\<lambda>p. url p = sample_url) [sample_record] = [sample_record]"
proof -
  let ?doc = repeated_page
  have e: "extract_product_data (\<lambda>g. g) (\<lambda>h. True) ?doc = Inr [sample_record]" by code_simp
  have s: "select is_product_card ?doc
     = [] @ sample_card [sample_price] # [sample_card [sample_price, NavigableString ''Sold by Target'']]"
    by (simp add: shadowed_page_cards repeated_page_cards)
  have t: "card_title (sample_card [sample_price]) \<noteq> []" by code_simp
  have pm: "price_marker (sample_card [sample_price]) \<noteq> None" by code_simp
  from first_seen_wins [OF e, of sample_url "[]" "sample_card [sample_price]"
      "[sample_card [sample_price, NavigableString ''Sold by Target'']]"]
    e s t pm sample_card_identity [of "\<lambda>h. True"] sample_card_valid [of "\<lambda>g. g" "\<lambda>h. True"]
  show ?thesis by simp
qed

text \<open>
  The claim C2 as the specification states it fails: both containers of this document
  resolve to the same identity, and the document yields no record for it.
\<close>

theorem exactly_one_record_counterexample:
  "select is_product_card shadowed_page
      = [sample_card [], sample_card [sample_price]]
   \<and> card_identity (\<lambda>h. True) (sample_card []) = Some (Inr sample_url)
   \<and> card_identity (\<lambda>h. True) (sample_card [sample_price]) = Some (Inr sample_url)
   \<and> extract_product_data (\<lambda>g. g) (\<lambda>h. True) shadowed_page
      = Inr []"
  by (simp add: shadowed_page_cards sample_card_identity shadowed_page_records)

section \<open>Properties of \<^verbatim>\<open>scrape_all_pages\<close>\<close>

text \<open>
  C1. Run over any sequence of pages from any set of known identities,
  \<^verbatim>\<open>scrape_all_pages\<close> returns only records whose identity is not in the initial set,
  at most one record per identity, and their number; the final set is the initial set plus
  the identities returned.  The result is the one of the dedup layer of the specification,
  which adds each accepted identity before it looks at the next record (the code updates
  the set once per page, and the identities of one page are distinct).  An identity that
  is not known and occurs on any number of pages is returned exactly once, and a second
  run over the same pages from the final set returns nothing.
\<close>

theorem scrape_all_pages_dedup:
  "scrape_loop fl bh pages (known, [], 0) = (known', out, n) \<Longrightarrow>
   scrape_all_pages fl bh known pages = (out, n)
   \<and> (\<forall>p\<in>set out. url p \<notin> known)
   \<and> distinct (map url out)
   \<and> known' = known \<union> url ` set out
   \<and> n = length out
   \<and> dedupe known (extracted fl bh pages) = (out, known')
   \<and> (\<forall>u. u \<notin> known \<and> u \<in> url ` set (extracted fl bh pages)
          \<longrightarrow> length (filter (\<lambda>p. url p = u) out) = 1)
   \<and> scrape_loop fl bh pages (known', [], 0) = (known', [], 0)"
proof -
  assume run: "scrape_loop fl bh pages (known, [], 0) = (known', out, n)"
  let ?X = "extracted fl bh pages"
  from run scrape_loop_dedupe [of fl bh pages known "[]" 0]
  have d: "dedupe known ?X = (out, known')" and n: "n = length out"
    by (auto simp: prod_eq_iff)
  from dedupe_props [OF d]
  have k: "known' = known \<union> url ` set out" and dist: "distinct (map url out)"
    and new: "\<forall>p\<in>set out. url p \<notin> known" and sub: "url ` set ?X \<subseteq> known'"
    by blast+
  have one: "length (filter (\<lambda>p. url p = u) out) = 1"
    if "u \<notin> known \<and> u \<in> url ` set ?X" for u
  proof -
    from that sub k have "u \<in> url ` set out" by blast
    from distinct_count_one [OF dist this] show ?thesis .
  qed
  have again: "scrape_loop fl bh pages (known', [], 0) = (known', [], 0)"
    by (simp add: scrape_loop_dedupe dedupe_known [OF sub])
  from run have "scrape_all_pages fl bh known pages = (out, n)"
    by (simp add: scrape_all_pages_def)
  with new dist k n d one again show ?thesis by blast
qed

theorem scrape_all_pages_dedup_witness:
  "scrape_loop (\<lambda>g. g) (\<lambda>h. True) [Some repeated_page, None, Some shadowed_page,
       Some (sample_page [sample_card [sample_price, NavigableString ''Sold by Target'']])] ({}, [], 0)
     = ({sample_url}, [sample_record], 1)
   \<and> scrape_all_pages (\<lambda>g. g) (\<lambda>h. True) {} [Some repeated_page, None, Some shadowed_page,
       Some (sample_page [sample_card [sample_price, NavigableString ''Sold by Target'']])]
     = ([sample_record], 1)
   \<and> length (filter (\<lambda>p. url p = sample_url) [sample_record]) = 1
   \<and> scrape_loop (\<lambda>g. g) (\<lambda>h. True) [Some repeated_page, None, Some shadowed_page,
       Some (sample_page [sample_card [sample_price, NavigableString ''Sold by Target'']])]
       ({sample_url}, [], 0)
     = ({sample_url}, [], 0)"
proof -
  let ?pg = "sample_page [sample_card [sample_price, NavigableString ''Sold by Target'']]"
  have e: "extract_product_data (\<lambda>g. g) (\<lambda>h. True) ?pg
      = Inr [sample_record\<lparr>sold_by_target := ''Yes'', seller_name := ''Target''\<rparr>]"
    by code_simp
  have u: "url sample_record = sample_url" by (simp add: sample_record_def)
  have run: "scrape_loop (\<lambda>g. g) (\<lambda>h. True) [Some repeated_page, None, Some shadowed_page, Some ?pg]
      ({}, [], 0) = ({sample_url}, [sample_record], 1)"
    by (simp add: repeated_page_records shadowed_page_records e u)
  from scrape_all_pages_dedup [OF run] run u show ?thesis by simp
qed

section \<open>Properties of the rating extractor\<close>

lemma find_SomeD: "find P xs = Some x \<Longrightarrow> P x \<and> x \<in> set xs"
  by (auto simp: find_Some_iff)

lemma search_first_SomeD: "search_first m s = Some r \<Longrightarrow> \<exists>t. m t = Some r"
  by (induction s) (auto split: option.splits)

lemma not_digit_dot: "\<not> is_digit CHR ''.''"
  by (simp add: is_digit_def)

lemma decimal_literal_digits: "d \<noteq> [] \<Longrightarrow> list_all is_digit d \<Longrightarrow> decimal_literal d"
proof -
  assume "d \<noteq> []" "list_all is_digit d"
  then have "takeWhile is_digit d \<noteq> []" "dropWhile is_digit d = []"
    by (cases d; simp add: list_all_iff)+
  then show ?thesis by (simp add: decimal_literal_def)
qed

lemma decimal_literal_dot:
  "d \<noteq> [] \<Longrightarrow> list_all is_digit d \<Longrightarrow> e \<noteq> [] \<Longrightarrow> list_all is_digit e \<Longrightarrow>
   decimal_literal (d @ ''.'' @ e)"
proof -
  assume a: "d \<noteq> []" "list_all is_digit d" "e \<noteq> []" "list_all is_digit e"
  then have "takeWhile is_digit (d @ ''.'' @ e) = d" "dropWhile is_digit (d @ ''.'' @ e) = ''.'' @ e"
    by (simp_all add: list_all_iff not_digit_dot)
  with a show ?thesis by (simp add: decimal_literal_def)
qed

lemma takeWhile_all: "list_all P (takeWhile P xs)"
  by (induction xs) auto

lemma rating_at_literal: "rating_at t = Some g \<Longrightarrow> decimal_literal g"
proof -
  assume a: "rating_at t = Some g"
  let ?d = "takeWhile is_digit t"
  let ?e = "takeWhile is_digit (drop 1 (dropWhile is_digit t))"
  from a have d: "?d \<noteq> []" by (auto simp: rating_at_def Let_def split: if_splits)
  from a have "g = ?d \<or> (?e \<noteq> [] \<and> g = ?d @ ''.'' @ ?e)"
    by (auto simp: rating_at_def Let_def split: if_splits)
  then show ?thesis
  proof
    assume "g = ?d"
    with d show ?thesis by (simp add: decimal_literal_digits takeWhile_all)
  next
    assume "?e \<noteq> [] \<and> g = ?d @ ''.'' @ ?e"
    with d decimal_literal_dot [of ?d ?e] show ?thesis by (simp add: takeWhile_all)
  qed
qed

lemma rating_search_literal: "rating_search s = Some g \<Longrightarrow> decimal_literal g"
  unfolding rating_search_def by (blast dest: search_first_SomeD rating_at_literal)

lemma digit_nth: "n < 10 \<Longrightarrow> is_digit (''0123456789'' ! n)"
  unfolding is_digit_def by (rule nth_mem) simp

lemma decimal_digits: "decimal n \<noteq> [] \<and> list_all is_digit (decimal n)"
proof (induction n rule: decimal.induct)
  case (1 n)
  show ?case
  proof (cases "n < 10")
    case True
    then show ?thesis by (subst (1 2) decimal.simps) (simp add: digit_nth)
  next
    case False
    with 1 show ?thesis by (subst (1 2) decimal.simps) (simp add: digit_nth)
  qed
qed

lemma decimal_literal_half:
  "decimal_literal (decimal n @ ''.5'') \<and> decimal_literal (decimal n @ ''.0'')"
  using decimal_digits [of n] decimal_literal_dot [of "decimal n" "''5''"]
    decimal_literal_dot [of "decimal n" "''0''"]
  by (simp add: is_digit_def)

lemma extract_star_rating_format:
  "extract_star_rating fl container = ''N/A''
   \<or> (\<exists>g. decimal_literal g \<and> extract_star_rating fl container = float_str fl g @ ''/5'')"
  unfolding extract_star_rating_def Let_def
  using decimal_literal_half
  by (auto split: option.splits dest: rating_search_literal)

text \<open>
  C5. Without a container the rating extractor returns \<^verbatim>\<open>"N/A"\<close>.  For a container in
  which no \<^verbatim>\<open>aria-label\<close> containing \<^verbatim>\<open>out of 5 stars\<close> matches the rating pattern,
  no \<^verbatim>\<open>div\<close> is a rating-stars container and no text node containing \<^verbatim>\<open>out of 5\<close>
  matches the rating pattern, it returns \<^verbatim>\<open>"N/A"\<close> as well.  The extractor has no
  failing branch: none of its operations raises on a parsed container.
\<close>

theorem no_rating_signal:
  "extract_star_rating fl None = ''N/A''
   \<and> ((\<forall>t\<in>set (descendants c). \<forall>label. attr t ''aria-label'' = Some label
            \<and> contains ''out of 5 stars'' label \<longrightarrow> rating_search label = None)
        \<and> (\<forall>t\<in>set (descendants c). \<not> (tag_name t = Some ''div'' \<and> attr_is ''data-test'' ''rating-stars'' t))
        \<and> (\<forall>s\<in>set (strings c). contains ''out of 5'' s \<longrightarrow> rating_search s = None)
      \<longrightarrow> extract_star_rating fl (Some c) = ''N/A'')"
proof (intro conjI impI)
  show "extract_star_rating fl None = ''N/A''" by (simp add: extract_star_rating_def)
next
  assume a: "(\<forall>t\<in>set (descendants c). \<forall>label. attr t ''aria-label'' = Some label
            \<and> contains ''out of 5 stars'' label \<longrightarrow> rating_search label = None)
        \<and> (\<forall>t\<in>set (descendants c). \<not> (tag_name t = Some ''div'' \<and> attr_is ''data-test'' ''rating-stars'' t))
        \<and> (\<forall>s\<in>set (strings c). contains ''out of 5'' s \<longrightarrow> rating_search s = None)"
  have s1: "(case select_one (attr_contains ''aria-label'' ''out of 5 stars'') c of
               None \<Rightarrow> None
             | Some rating_elem \<Rightarrow>
                (case attr rating_elem ''aria-label'' of None \<Rightarrow> None
                 | Some label \<Rightarrow> rating_search label)) = None"
  proof (cases "select_one (attr_contains ''aria-label'' ''out of 5 stars'') c")
    case None
    then show ?thesis by simp
  next
    case (Some t)
    from find_SomeD [OF Some [unfolded select_one_def]]
    have "attr_contains ''aria-label'' ''out of 5 stars'' t" "t \<in> set (descendants c)" by blast+
    with a Some show ?thesis
      by (auto simp: attr_contains_def split: option.splits)
  qed
  have s2: "select_one (\<lambda>t. tag_name t = Some ''div'' \<and> attr_is ''data-test'' ''rating-stars'' t) c = None"
    using a by (simp add: select_one_def find_None_iff)
  have s3: "(case find_string (contains ''out of 5'') c of None \<Rightarrow> ''N/A''
             | Some text_elem \<Rightarrow> (case rating_search text_elem of
                  Some g \<Rightarrow> float_str fl g @ ''/5'' | None \<Rightarrow> ''N/A'')) = ''N/A''"
  proof (cases "find_string (contains ''out of 5'') c")
    case None
    then show ?thesis by simp
  next
    case (Some s)
    from find_SomeD [OF Some [unfolded find_string_def]] a
    have "rating_search s = None" by blast
    with Some show ?thesis by simp
  qed
  show "extract_star_rating fl (Some c) = ''N/A''"
    unfolding extract_star_rating_def by (simp add: s1 s2 s3)
qed

theorem no_rating_signal_witness:
  "descendants (sample_card [sample_price]) = [sample_link, NavigableString ''Hero Figure X'',
       sample_price, NavigableString ''$19.99'']
   \<and> strings (sample_card [sample_price]) = [''Hero Figure X'', ''$19.99'']
   \<and> extract_star_rating (\<lambda>g. g) (Some (sample_card [sample_price])) = ''N/A''
   \<and> extract_star_rating (\<lambda>g. g) None = ''N/A''"
proof -
  have d: "descendants (sample_card [sample_price]) = [sample_link, NavigableString ''Hero Figure X'',
       sample_price, NavigableString ''$19.99'']" by code_simp
  have s: "strings (sample_card [sample_price]) = [''Hero Figure X'', ''$19.99'']" by code_simp
  have h1: "\<forall>t\<in>set (descendants (sample_card [sample_price])). \<forall>label.
      attr t ''aria-label'' = Some label \<and> contains ''out of 5 stars'' label
        \<longrightarrow> rating_search label = None"
    unfolding d by (simp add: sample_link_def sample_price_def)
  have h2: "\<forall>t\<in>set (descendants (sample_card [sample_price])).
      \<not> (tag_name t = Some ''div'' \<and> attr_is ''data-test'' ''rating-stars'' t)"
    unfolding d by (simp add: sample_link_def sample_price_def)
  have c1: "\<not> contains ''out of 5'' ''Hero Figure X''" by code_simp
  have c2: "\<not> contains ''out of 5'' ''$19.99''" by code_simp
  have h3: "\<forall>s\<in>set (strings (sample_card [sample_price])). contains ''out of 5'' s \<longrightarrow> rating_search s = None"
    unfolding s using c1 c2 by simp
  from no_rating_signal [of "\<lambda>g. g" "sample_card [sample_price]"] h1 h2 h3 d s
  show ?thesis by blast
qed

text \<open>
  C4, as the code has it.  When the first element of a container (in document order) whose
  \<^verbatim>\<open>aria-label\<close> contains \<^verbatim>\<open>out of 5 stars\<close> has the label \<^verbatim>\<open>4.5 out of 5 stars\<close>, the
  rating extractor returns \<^verbatim>\<open>"4.5/5"\<close>, whatever else the container holds.
\<close>

theorem first_rating_label:
  "select_one (attr_contains ''aria-label'' ''out of 5 stars'') c = Some t \<Longrightarrow>
   attr t ''aria-label'' = Some ''4.5 out of 5 stars'' \<Longrightarrow>
   extract_star_rating fl (Some c) = ''4.5/5''"
proof -
  have r: "rating_search ''4.5 out of 5 stars'' = Some ''4.5''" by code_simp
  have f: "float_str fl ''4.5'' = ''4.5''" by code_simp
  assume "select_one (attr_contains ''aria-label'' ''out of 5 stars'') c = Some t"
    "attr t ''aria-label'' = Some ''4.5 out of 5 stars''"
  then show ?thesis by (simp add: extract_star_rating_def r f)
qed

theorem first_rating_label_witness:
  "select_one (attr_contains ''aria-label'' ''out of 5 stars'')
       (sample_card [Tag ''span'' [(''aria-label'', ''4.5 out of 5 stars'')] [], nine_star_label])
     = Some (Tag ''span'' [(''aria-label'', ''4.5 out of 5 stars'')] [])
   \<and> attr (Tag ''span'' [(''aria-label'', ''4.5 out of 5 stars'')] []) ''aria-label''
     = Some ''4.5 out of 5 stars''
   \<and> extract_star_rating (\<lambda>g. g)
       (Some (sample_card [Tag ''span'' [(''aria-label'', ''4.5 out of 5 stars'')] [], nine_star_label]))
     = ''4.5/5''"
proof -
  have h: "select_one (attr_contains ''aria-label'' ''out of 5 stars'')
       (sample_card [Tag ''span'' [(''aria-label'', ''4.5 out of 5 stars'')] [], nine_star_label])
     = Some (Tag ''span'' [(''aria-label'', ''4.5 out of 5 stars'')] [])" by code_simp
  have a: "attr (Tag ''span'' [(''aria-label'', ''4.5 out of 5 stars'')] []) ''aria-label''
     = Some ''4.5 out of 5 stars''" by simp
  from first_rating_label [OF h a] h a show ?thesis by blast
qed

text \<open>
  The claim C4 as the specification states it fails: this container holds an element
  whose label is \<^verbatim>\<open>4.5 out of 5 stars\<close>, after an element with another rating label.
\<close>

theorem rating_label_counterexample:
  "Tag ''span'' [(''aria-label'', ''4.5 out of 5 stars'')] [] \<in> set (descendants two_label_card)
   \<and> extract_star_rating (\<lambda>g. g) (Some two_label_card) = ''3.0/5''"
  by code_simp

text \<open>
  C9, as the code has it.  The rating of every emitted record is \<^verbatim>\<open>"N/A"\<close> or the float
  rendering of a decimal literal (digits, optionally a dot and digits) followed by
  \<^verbatim>\<open>/5\<close>; the code sets no bound on the number.
\<close>

theorem rating_format:
  "extract_product_data fl bh soup = Inr products \<Longrightarrow> p \<in> set products \<Longrightarrow>
   rating p = ''N/A'' \<or> (\<exists>g. decimal_literal g \<and> rating p = float_str fl g @ ''/5'')"
proof -
  assume "extract_product_data fl bh soup = Inr products" "p \<in> set products"
  from extract_records [OF this] obtain c where "card_record fl bh c = Some p" by blast
  from card_record_build [OF this] obtain link pe where
    "p = build_product fl c link (url p) pe" by blast
  then have "rating p = extract_star_rating fl (Some c)"
    by (metis build_product_def product.select_convs(5))
  with extract_star_rating_format [of fl "Some c"] show ?thesis by simp
qed

theorem rating_format_witness:
  "extract_product_data (\<lambda>g. g) (\<lambda>h. True) (sample_page [sample_card [sample_price, nine_star_label]])
     = Inr [sample_record\<lparr>rating := ''9.0/5''\<rparr>]
   \<and> rating (sample_record\<lparr>rating := ''9.0/5''\<rparr>) \<noteq> ''N/A''
   \<and> (\<exists>g. decimal_literal g \<and> rating (sample_record\<lparr>rating := ''9.0/5''\<rparr>) = float_str (\<lambda>g. g) g @ ''/5'')"
proof -
  have h: "extract_product_data (\<lambda>g. g) (\<lambda>h. True) (sample_page [sample_card [sample_price, nine_star_label]])
     = Inr [sample_record\<lparr>rating := ''9.0/5''\<rparr>]" by code_simp
  have m: "sample_record\<lparr>rating := ''9.0/5''\<rparr> \<in> set [sample_record\<lparr>rating := ''9.0/5''\<rparr>]" by simp
  from rating_format [OF h m] h show ?thesis by simp
qed

text \<open>
  The claim C9 as the specification states it fails: a label \<^verbatim>\<open>9 out of 5 stars\<close> gives a
  record whose rating is \<^verbatim>\<open>9.0/5\<close>.
\<close>

theorem rating_range_counterexample:
  "extract_product_data (\<lambda>g. g) (\<lambda>h. True) (sample_page [sample_card [sample_price, nine_star_label]])
     = Inr [sample_record\<lparr>rating := ''9.0/5''\<rparr>]
   \<and> \<not> rating_in_range (rating (sample_record\<lparr>rating := ''9.0/5''\<rparr>))
   \<and> rating_in_range ''4.5/5'' \<and> rating_in_range ''5.0/5'' \<and> rating_in_range ''N/A''"
  by code_simp


section \<open>Properties of the inventory extractor\<close>

lemma lower_cases: "lower c = c \<or> lower c \<in> set ''abcdefghijklmnopqrstuvwxyz''"
proof (cases "map_of (zip ''ABCDEFGHIJKLMNOPQRSTUVWXYZ'' ''abcdefghijklmnopqrstuvwxyz'') c")
  case None
  have "lower c = c" unfolding lower_def None by simp
  then show ?thesis ..
next
  case (Some d)
  from map_of_SomeD [OF Some] have "d \<in> set ''abcdefghijklmnopqrstuvwxyz''"
    by (rule set_zip_rightD)
  moreover have "lower c = d" unfolding lower_def Some by simp
  ultimately show ?thesis by blast
qed

lemma lower_not_letter:
  "d \<notin> set ''abcdefghijklmnopqrstuvwxyz'' \<Longrightarrow> lower c = d \<Longrightarrow> c = d"
  by (metis lower_cases)

lemma digits_fixed:
  "list_all (\<lambda>d. d \<notin> set ''abcdefghijklmnopqrstuvwxyz'' \<and> lower d = d) ''0123456789''"
  by code_simp

lemma digit_not_letter: "is_digit d \<Longrightarrow> d \<notin> set ''abcdefghijklmnopqrstuvwxyz''"
  using digits_fixed unfolding is_digit_def list_all_iff by blast

lemma lower_digit: "is_digit (lower c) \<Longrightarrow> lower c = c"
  using lower_not_letter [OF digit_not_letter, of "lower c" c] by simp

lemma digit_lower: "is_digit c \<Longrightarrow> lower c = c"
  using digits_fixed unfolding is_digit_def list_all_iff by blast

lemma map_lower_digits: "list_all is_digit n \<Longrightarrow> map lower n = n"
  by (induction n) (auto simp: digit_lower)

lemma map_lower_eq_digits: "list_all is_digit n \<Longrightarrow> map lower t = n \<Longrightarrow> t = n"
proof (induction n arbitrary: t)
  case Nil
  then show ?case by simp
next
  case (Cons d n)
  from Cons.prems(2) obtain c t' where t: "t = c # t'" "lower c = d" "map lower t' = n"
    by (cases t) simp_all
  from Cons.prems(1) have d: "is_digit d" and n: "list_all is_digit n" by simp_all
  from d t(2) have "is_digit (lower c)" by simp
  from lower_digit [OF this] t(2) have "c = d" by simp
  moreover from Cons.IH [OF n t(3)] have "t' = n" .
  ultimately show ?case using t(1) by simp
qed

lemma search_iff: "search p s \<longleftrightarrow> (\<exists>a t. s = a @ t \<and> p t)"
proof (induction s)
  case Nil
  then show ?case by simp
next
  case (Cons c s)
  show ?case
  proof
    assume "search p (c # s)"
    then consider "p (c # s)" | "search p s" by auto
    then show "\<exists>a t. c # s = a @ t \<and> p t"
    proof cases
      case 1
      then have "c # s = [] @ (c # s) \<and> p (c # s)" by simp
      then show ?thesis by blast
    next
      case 2
      with Cons.IH obtain a t where "s = a @ t" "p t" by blast
      then have "c # s = (c # a) @ t \<and> p t" by simp
      then show ?thesis by blast
    qed
  next
    assume "\<exists>a t. c # s = a @ t \<and> p t"
    then obtain a t where at: "c # s = a @ t" "p t" by blast
    show "search p (c # s)"
    proof (cases a)
      case Nil
      with at have "p (c # s)" by simp
      then show ?thesis by simp
    next
      case (Cons x a')
      with at have "s = a' @ t" by simp
      with at(2) Cons.IH show ?thesis by auto
    qed
  qed
qed

lemma map_eq_appendD:
  "map f s = a @ x \<Longrightarrow> \<exists>s1 s2. s = s1 @ s2 \<and> map f s1 = a \<and> map f s2 = x"
proof -
  assume m: "map f s = a @ x"
  then have "take (length a) (map f s) = a" "drop (length a) (map f s) = x" by simp_all
  then have "map f (take (length a) s) = a" "map f (drop (length a) s) = x"
    by (simp_all add: take_map drop_map)
  moreover have "s = take (length a) s @ drop (length a) s" by simp
  ultimately show ?thesis by blast
qed

text \<open>The longest run of digits is the only one a phrase that starts with a space can follow.\<close>

lemma digits_then_iff:
  assumes l: "l \<noteq> []" "\<not> is_digit (hd l)" "hd l \<notin> set ''abcdefghijklmnopqrstuvwxyz''"
  shows "digits_then (lit_i l) t
     \<longleftrightarrow> (\<exists>n b. n \<noteq> [] \<and> list_all is_digit n \<and> map lower t = n @ l @ b)"
proof
  assume d: "digits_then (lit_i l) t"
  let ?n = "takeWhile is_digit t" and ?r = "dropWhile is_digit t"
  from d have n: "?n \<noteq> []" and p: "prefix l (map lower ?r)"
    by (simp_all add: digits_then_def lit_i_def)
  from p obtain b where b: "map lower ?r = l @ b" by (auto simp: prefix_def)
  have dn: "list_all is_digit ?n" by (induction t) auto
  have "map lower t = map lower (?n @ ?r)" by simp
  also have "\<dots> = ?n @ l @ b" by (simp only: map_append b map_lower_digits [OF dn])
  finally show "\<exists>n b. n \<noteq> [] \<and> list_all is_digit n \<and> map lower t = n @ l @ b"
    using n dn by blast
next
  assume "\<exists>n b. n \<noteq> [] \<and> list_all is_digit n \<and> map lower t = n @ l @ b"
  then obtain n b where n: "n \<noteq> []" "list_all is_digit n" and m: "map lower t = n @ l @ b"
    by blast
  from map_eq_appendD [OF m] obtain t1 t2 where
    t: "t = t1 @ t2" "map lower t1 = n" "map lower t2 = l @ b" by blast
  from map_lower_eq_digits [OF n(2) t(2)] have t1: "t1 = n" .
  from t(3) l(1) obtain c t3 where t2: "t2 = c # t3" "lower c = hd l" by (cases l; cases t2) auto
  from lower_not_letter [OF l(3) t2(2)] l(2) have nd: "\<not> is_digit c" by simp
  from n(2) have all: "\<And>x. x \<in> set n \<Longrightarrow> is_digit x" by (simp add: list_all_iff)
  have tw: "takeWhile is_digit t = n" "dropWhile is_digit t = t2"
    using t(1) t1 t2(1) nd all by (simp_all add: takeWhile_append2 dropWhile_append2)
  show "digits_then (lit_i l) t"
    using n(1) t(3) by (simp add: digits_then_def lit_i_def tw)
qed

lemma only_prefix:
  "lit_i ''only '' t \<and> map lower (drop 5 t) = x \<longleftrightarrow> map lower t = ''only '' @ x"
proof
  assume a: "lit_i ''only '' t \<and> map lower (drop 5 t) = x"
  then obtain r where r: "map lower t = ''only '' @ r" by (auto simp: lit_i_def prefix_def)
  have "map lower (drop 5 t) = drop 5 (map lower t)" by (simp add: drop_map)
  also have "\<dots> = r" unfolding r by simp
  finally have "x = r" using a by simp
  with r show "map lower t = ''only '' @ x" by simp
next
  assume a: "map lower t = ''only '' @ x"
  have "map lower (drop 5 t) = drop 5 (map lower t)" by (simp add: drop_map)
  also have "\<dots> = x" unfolding a by simp
  finally show "lit_i ''only '' t \<and> map lower (drop 5 t) = x"
    using a by (simp add: lit_i_def)
qed

lemma only_digits_then:
  assumes l: "l \<noteq> []" "\<not> is_digit (hd l)" "hd l \<notin> set ''abcdefghijklmnopqrstuvwxyz''"
  shows "lit_i ''only '' t \<and> digits_then (lit_i l) (drop 5 t)
     \<longleftrightarrow> (\<exists>n b. n \<noteq> [] \<and> list_all is_digit n \<and> map lower t = ''only '' @ n @ l @ b)"
proof
  assume a: "lit_i ''only '' t \<and> digits_then (lit_i l) (drop 5 t)"
  then have "digits_then (lit_i l) (drop 5 t)" ..
  then obtain n b where n: "n \<noteq> []" "list_all is_digit n"
    and m: "map lower (drop 5 t) = n @ l @ b"
    unfolding digits_then_iff [OF l] by blast
  from a m have "lit_i ''only '' t \<and> map lower (drop 5 t) = n @ l @ b" by blast
  then have "map lower t = ''only '' @ n @ l @ b" by (rule only_prefix [THEN iffD1])
  with n show "\<exists>n b. n \<noteq> [] \<and> list_all is_digit n \<and> map lower t = ''only '' @ n @ l @ b"
    by blast
next
  assume "\<exists>n b. n \<noteq> [] \<and> list_all is_digit n \<and> map lower t = ''only '' @ n @ l @ b"
  then obtain n b where n: "n \<noteq> []" "list_all is_digit n"
    and m: "map lower t = ''only '' @ n @ l @ b" by blast
  from m have o: "lit_i ''only '' t \<and> map lower (drop 5 t) = n @ l @ b"
    by (rule only_prefix [THEN iffD2])
  with n have "digits_then (lit_i l) (drop 5 t)" unfolding digits_then_iff [OF l] by blast
  with o show "lit_i ''only '' t \<and> digits_then (lit_i l) (drop 5 t)" by blast
qed

lemma space_first: "\<not> is_digit CHR '' '' \<and> CHR '' '' \<notin> set ''abcdefghijklmnopqrstuvwxyz''"
  by code_simp

lemma inventory_at_iff:
  "inventory_at t \<longleftrightarrow>
     (\<exists>n b. n \<noteq> [] \<and> list_all is_digit n
        \<and> (map lower t = ''only '' @ n @ '' left'' @ b
            \<or> map lower t = n @ '' left'' @ b
            \<or> map lower t = ''only '' @ n @ '' in stock'' @ b))
     \<or> (\<exists>b. map lower t = ''low stock'' @ b)"
proof -
  have a2: "digits_then (lit_i '' left'') t
      \<longleftrightarrow> (\<exists>n b. n \<noteq> [] \<and> list_all is_digit n \<and> map lower t = n @ '' left'' @ b)"
    by (rule digits_then_iff) (simp_all add: space_first)
  have a1: "lit_i ''only '' t \<and> digits_then (lit_i '' left'') (drop 5 t)
      \<longleftrightarrow> (\<exists>n b. n \<noteq> [] \<and> list_all is_digit n \<and> map lower t = ''only '' @ n @ '' left'' @ b)"
    by (rule only_digits_then) (simp_all add: space_first)
  have a3: "lit_i ''only '' t \<and> digits_then (lit_i '' in stock'') (drop 5 t)
      \<longleftrightarrow> (\<exists>n b. n \<noteq> [] \<and> list_all is_digit n \<and> map lower t = ''only '' @ n @ '' in stock'' @ b)"
    by (rule only_digits_then) (simp_all add: space_first)
  have a4: "lit_i ''low stock'' t \<longleftrightarrow> (\<exists>b. map lower t = ''low stock'' @ b)"
    unfolding lit_i_def prefix_def ..
  show ?thesis unfolding inventory_at_def a1 a2 a3 a4 by blast
qed

lemma inventory_search: "search inventory_at s \<longleftrightarrow> inventory_phrase s"
proof
  assume "search inventory_at s"
  then obtain a t where s: "s = a @ t" and t: "inventory_at t" by (auto simp: search_iff)
  from s have m: "map lower s = map lower a @ map lower t" by simp
  from t [unfolded inventory_at_iff] show "inventory_phrase s"
    unfolding inventory_phrase_def m by (elim disjE exE conjE) (simp; blast)+
next
  assume "inventory_phrase s"
  then consider n a b x where "n \<noteq> []" "list_all is_digit n" "map lower s = a @ x"
      "x = ''only '' @ n @ '' left'' @ b \<or> x = n @ '' left'' @ b \<or> x = ''only '' @ n @ '' in stock'' @ b"
    | a b where "map lower s = a @ ''low stock'' @ b"
    unfolding inventory_phrase_def by blast
  then show "search inventory_at s"
  proof cases
    case 1
    from map_eq_appendD [OF 1(3)] obtain s1 s2 where s: "s = s1 @ s2" "map lower s2 = x"
      by blast
    with 1 have "inventory_at s2" unfolding inventory_at_iff by blast
    with s(1) show ?thesis unfolding search_iff by blast
  next
    case 2
    from map_eq_appendD [OF this] obtain s1 s2 where
      s: "s = s1 @ s2" "map lower s2 = ''low stock'' @ b" by blast
    then have "inventory_at s2" unfolding inventory_at_iff by blast
    with s(1) show ?thesis unfolding search_iff by blast
  qed
qed

lemma first_digits_None: "(\<forall>x\<in>set t. \<not> is_digit x) \<Longrightarrow> first_digits t = None"
  by (simp add: first_digits_def)

lemma first_digits_run:
  "(\<forall>x\<in>set a. \<not> is_digit x) \<Longrightarrow> m \<noteq> [] \<Longrightarrow> list_all is_digit m \<Longrightarrow>
   b = [] \<or> \<not> is_digit (hd b) \<Longrightarrow> first_digits (a @ m @ b) = Some m"
proof -
  assume a: "\<forall>x\<in>set a. \<not> is_digit x" and m: "m \<noteq> []" "list_all is_digit m"
    and b: "b = [] \<or> \<not> is_digit (hd b)"
  from m have hm: "is_digit (hd m)" by (cases m) auto
  from a hm m(1) have d: "dropWhile (\<lambda>c. \<not> is_digit c) (a @ m @ b) = m @ b"
    by (cases m) (simp_all add: dropWhile_append2)
  from b have tb: "takeWhile is_digit b = []" by (cases b) auto
  from m(2) have "takeWhile is_digit (m @ b) = m"
    by (simp add: takeWhile_append2 list_all_iff tb)
  with d m(1) show ?thesis by (simp add: first_digits_def)
qed


text \<open>
  C8, as the code has it.  The inventory extractor looks at the text nodes of the
  container one by one and takes the first in which one of the patterns of the
  specification occurs.  It returns \<^verbatim>\<open>"N/A"\<close> when there is none (or no container),
  \<^verbatim>\<open>"Low Stock"\<close> when that text node holds no digit, and otherwise the first run of
  digits of that text node, wherever in the node it stands.
\<close>

theorem inventory_count:
  "extract_inventory_count None = ''N/A''
   \<and> ((\<forall>t\<in>set (strings c). \<not> inventory_phrase t) \<longrightarrow> extract_inventory_count (Some c) = ''N/A'')
   \<and> (find inventory_phrase (strings c) = Some t \<and> (\<forall>x\<in>set t. \<not> is_digit x)
        \<longrightarrow> extract_inventory_count (Some c) = ''Low Stock'')
   \<and> (find inventory_phrase (strings c) = Some (a @ m @ b) \<and> (\<forall>x\<in>set a. \<not> is_digit x)
        \<and> m \<noteq> [] \<and> list_all is_digit m \<and> (b = [] \<or> \<not> is_digit (hd b))
        \<longrightarrow> extract_inventory_count (Some c) = m)"
proof -
  have eq: "search inventory_at = inventory_phrase" by (rule ext) (rule inventory_search)
  show ?thesis
    unfolding extract_inventory_count_def find_string_def eq
    by (auto simp: first_digits_None first_digits_run split: option.splits dest: find_SomeD)
qed

theorem inventory_count_witness:
  "find inventory_phrase (strings (sample_card [NavigableString ''In stock'',
       NavigableString ''Hurry - Only 2 left!'', NavigableString ''low stock'']))
     = Some (''Hurry - Only '' @ ''2'' @ '' left!'')
   \<and> extract_inventory_count (Some (sample_card [NavigableString ''In stock'',
       NavigableString ''Hurry - Only 2 left!'', NavigableString ''low stock''])) = ''2''
   \<and> find inventory_phrase (strings (sample_card [NavigableString ''LOW STOCK'']))
     = Some ''LOW STOCK''
   \<and> extract_inventory_count (Some (sample_card [NavigableString ''LOW STOCK''])) = ''Low Stock''
   \<and> extract_inventory_count (Some (sample_card [NavigableString ''In stock''])) = ''N/A''"
proof -
  have eq: "inventory_phrase = search inventory_at" by (rule ext) (simp add: inventory_search)
  let ?c = "sample_card [NavigableString ''In stock'',
       NavigableString ''Hurry - Only 2 left!'', NavigableString ''low stock'']"
  have f1: "find inventory_phrase (strings ?c) = Some (''Hurry - Only '' @ ''2'' @ '' left!'')"
    unfolding eq by code_simp
  have n1: "\<forall>x\<in>set ''Hurry - Only ''. \<not> is_digit x" by code_simp
  have n2: "list_all is_digit ''2''" by code_simp
  have n3: "\<not> is_digit (hd '' left!'')" by code_simp
  have f2: "find inventory_phrase (strings (sample_card [NavigableString ''LOW STOCK'']))
     = Some ''LOW STOCK''"
    unfolding eq by code_simp
  have n4: "\<forall>x\<in>set ''LOW STOCK''. \<not> is_digit x" by code_simp
  have f3: "\<forall>t\<in>set (strings (sample_card [NavigableString ''In stock''])). \<not> inventory_phrase t"
    unfolding eq by code_simp
  from inventory_count [of ?c _ "''Hurry - Only ''" "''2''" "'' left!''"] f1 n1 n2 n3
  have r1: "extract_inventory_count (Some ?c) = ''2''" by simp
  from inventory_count [of "sample_card [NavigableString ''LOW STOCK'']" "''LOW STOCK''"] f2 n4
  have r2: "extract_inventory_count (Some (sample_card [NavigableString ''LOW STOCK''])) = ''Low Stock''"
    by simp
  from inventory_count [of "sample_card [NavigableString ''In stock'']"] f3
  have r3: "extract_inventory_count (Some (sample_card [NavigableString ''In stock''])) = ''N/A''"
    by simp
  from f1 r1 f2 r2 r3 show ?thesis by blast
qed

text \<open>
  The claim C8 as the specification states it fails.  In \<^verbatim>\<open>3 pack - only 2 left\<close> the
  number of the pattern is 2 and the extractor returns 3; in \<^verbatim>\<open>Low stock: 24 pack\<close>
  the pattern matched has no number and the extractor returns 24; and a phrase that is
  spread over two text nodes is not found.
\<close>

theorem inventory_count_counterexample:
  "extract_inventory_count (Some (sample_card [NavigableString ''3 pack - only 2 left''])) = ''3''
   \<and> extract_inventory_count (Some (sample_card [NavigableString ''Low stock: 24 pack''])) = ''24''
   \<and> extract_inventory_count
        (Some (sample_card [Tag ''b'' [] [NavigableString ''Only 2''], NavigableString '' left'']))
      = ''N/A''"
  by code_simp


end
